theory Spec2Isabelle
  imports Complex_Main
begin

section \<open>Python values\<close>

text \<open>
  The program is \<^verbatim>\<open>string_calculator.py\<close>. A Python \<^verbatim>\<open>str\<close> is modelled by
  \<^typ>\<open>string\<close>, a \<^typ>\<open>char\<close> being read as a code point below 256; a one-character
  Python string such as \<^verbatim>\<open>expression[i]\<close> is a \<^typ>\<open>char\<close>, and \<open>[c]\<close> when it is
  used as a token or as a key of the table. A Python list is a HOL list in the same
  order: \<^verbatim>\<open>xs.append(x)\<close> is \<open>xs @ [x]\<close>, \<^verbatim>\<open>xs[-1]\<close> is \<open>last xs\<close>, \<^verbatim>\<open>xs.pop()\<close>
  returns \<open>last xs\<close> and leaves \<open>butlast xs\<close>, \<^verbatim>\<open>xs[0]\<close> is \<open>xs ! 0\<close>; the last
  two raise \<^verbatim>\<open>IndexError\<close> on the empty list, which every use below writes out.
\<close>

datatype py_error =
    ValueError string
  | IndexError string
  | ZeroDivisionError string
  | OverflowError string

text \<open>
  The arithmetic of Python's \<^verbatim>\<open>float\<close> (IEEE double precision) is a parameter of the
  model: a record of the operations that the program applies to floats. Every theorem
  that is stated for an arbitrary \<open>ops\<close> therefore holds for the double-precision
  operations, whatever their rounding.
  \<^item> \<open>py_float ops s\<close> is \<^verbatim>\<open>float(s)\<close>: \<open>None\<close> when Python raises \<^verbatim>\<open>ValueError\<close>;
  \<^item> \<open>f_add\<close>, \<open>f_sub\<close>, \<open>f_mul\<close>, \<open>f_div\<close> are \<^verbatim>\<open>a + b\<close>, \<^verbatim>\<open>a - b\<close>, \<^verbatim>\<open>a * b\<close>
    and \<^verbatim>\<open>a / b\<close>; the program divides only after it has checked \<^verbatim>\<open>b == 0\<close>;
  \<^item> \<open>math_pow ops a b\<close> is \<^verbatim>\<open>math.pow(a, b)\<close>, which may raise;
  \<^item> \<open>eq_zero ops b\<close> is the comparison \<^verbatim>\<open>b == 0\<close>;
  \<^item> \<open>int_zero ops\<close> is the operand that Python's integer \<^verbatim>\<open>0\<close> becomes in
    arithmetic with a float.
\<close>

record 'v float_ops =
  py_float :: "string \<Rightarrow> 'v option"
  f_add :: "'v \<Rightarrow> 'v \<Rightarrow> 'v"
  f_sub :: "'v \<Rightarrow> 'v \<Rightarrow> 'v"
  f_mul :: "'v \<Rightarrow> 'v \<Rightarrow> 'v"
  f_div :: "'v \<Rightarrow> 'v \<Rightarrow> 'v"
  math_pow :: "'v \<Rightarrow> 'v \<Rightarrow> py_error + 'v"
  eq_zero :: "'v \<Rightarrow> bool"
  int_zero :: "'v"

section \<open>The operator table\<close>

text \<open>
  \<^verbatim>\<open>operators = {'+': (1, 'L'), '-': (1, 'L'), '*': (2, 'L'), '/': (2, 'L'), '^': (3, 'R')}\<close>
\<close>

definition operators :: "string \<rightharpoonup> int \<times> string" where
  "operators = map_of
     [(''+'', (1, ''L'')), (''-'', (1, ''L'')),
      (''*'', (2, ''L'')), (''/'', (2, ''L'')),
      (''^'', (3, ''R''))]"

section \<open>tokenize_string\<close>

text \<open>
  \<^verbatim>\<open>str.isdigit\<close> on the code points below 256: the ten ASCII digits and the
  superscript digits U+00B2, U+00B3 and U+00B9.
\<close>

definition isdigit :: "char \<Rightarrow> bool" where
  "isdigit c = (c \<in> set ''0123456789'' \<or> c \<in> {CHR 0xB2, CHR 0xB3, CHR 0xB9})"

text \<open>
  \<^verbatim>\<open>if current_number: tokens.append(''.join(current_number)); current_number = []\<close>
\<close>

definition flush_number :: "string list \<Rightarrow> string \<Rightarrow> string list \<times> string" where
  "flush_number tokens current_number =
     (if current_number \<noteq> [] then (tokens @ [current_number], []) else (tokens, current_number))"

text \<open>
  The body of the \<^verbatim>\<open>while i < len(expression)\<close> loop, for the character at index \<open>i\<close>.
  The result is the pair \<open>(tokens, current_number)\<close> after the iteration, or the
  exception raised.
\<close>

definition tokenize_char ::
  "string \<Rightarrow> nat \<Rightarrow> string list \<Rightarrow> string \<Rightarrow> py_error + string list \<times> string" where
  "tokenize_char expression i tokens current_number =
     (let char = expression ! i in
      if isdigit char \<or> char = CHR ''.'' then Inr (tokens, current_number @ [char])
      else
        (case flush_number tokens current_number of
           (tokens1, current1) \<Rightarrow>
             if char = CHR ''-'' \<and> (i = 0 \<or> expression ! (i - 1) \<in> set ''(-+*/^)'')
             then Inr (tokens1, current1 @ [char])
             else if operators [char] \<noteq> None \<or> char \<in> set ''()''
             then Inr (tokens1 @ [[char]], current1)
             else Inl (ValueError (''Unexpected character: '' @ [char]))))"

function tokenize_loop ::
  "string \<Rightarrow> nat \<Rightarrow> string list \<Rightarrow> string \<Rightarrow> py_error + string list \<times> string" where
  "tokenize_loop expression i tokens current_number =
     (if i < length expression then
        (case tokenize_char expression i tokens current_number of
           Inl e \<Rightarrow> Inl e
         | Inr (tokens1, current1) \<Rightarrow> tokenize_loop expression (i + 1) tokens1 current1)
      else Inr (tokens, current_number))"
  by pat_completeness auto
termination
  by (relation "measure (\<lambda>(expression, i, tokens, current_number). length expression - i)") auto

declare tokenize_loop.simps [simp del]

definition tokenize_string :: "string \<Rightarrow> py_error + string list" where
  "tokenize_string expression0 =
     (let expression = filter (\<lambda>c. c \<noteq> CHR '' '') expression0 in
      case tokenize_loop expression 0 [] [] of
        Inl e \<Rightarrow> Inl e
      | Inr (tokens, current_number) \<Rightarrow> Inr (fst (flush_number tokens current_number)))"

section \<open>infix_to_rpn\<close>

definition check_is_number :: "'v float_ops \<Rightarrow> string \<Rightarrow> bool" where
  "check_is_number ops token = (py_float ops token \<noteq> None)"

text \<open>
  The condition of the \<^verbatim>\<open>while\<close> loop of the operator branch, below
  \<^verbatim>\<open>stack and\<close>. Its first argument is \<^verbatim>\<open>operators[token]\<close>, which the branch has
  found in the table; \<^verbatim>\<open>stack[-1] in operators\<close> is the \<open>None\<close> case of the lookup of
  the top.
\<close>

definition pop_condition :: "int \<times> string \<Rightarrow> string \<Rightarrow> bool" where
  "pop_condition entry top_token =
     (case operators top_token of
        None \<Rightarrow> False
      | Some top_entry \<Rightarrow>
          (snd entry = ''L'' \<and> fst entry \<le> fst top_entry) \<or>
          (snd entry = ''R'' \<and> fst entry < fst top_entry))"

function pop_operators ::
  "int \<times> string \<Rightarrow> string list \<Rightarrow> string list \<Rightarrow> string list \<times> string list" where
  "pop_operators entry stack output =
     (if stack \<noteq> [] \<and> pop_condition entry (last stack)
      then pop_operators entry (butlast stack) (output @ [last stack])
      else (stack, output))"
  by pat_completeness auto
termination
  by (relation "measure (\<lambda>(entry, stack, output). length stack)") auto

declare pop_operators.simps [simp del]

text \<open>\<^verbatim>\<open>while stack and stack[-1] != '(': output.append(stack.pop())\<close>\<close>

function pop_until_paren :: "string list \<Rightarrow> string list \<Rightarrow> string list \<times> string list" where
  "pop_until_paren stack output =
     (if stack \<noteq> [] \<and> last stack \<noteq> ''(''
      then pop_until_paren (butlast stack) (output @ [last stack])
      else (stack, output))"
  by pat_completeness auto
termination
  by (relation "measure (\<lambda>(stack, output). length stack)") auto

declare pop_until_paren.simps [simp del]

text \<open>
  The body of \<^verbatim>\<open>for token in tokens\<close>. The state is the pair \<open>(output, stack)\<close>. A token
  that is no number, no operator and no parenthesis falls through every branch.
\<close>

definition rpn_token ::
  "'v float_ops \<Rightarrow> string \<Rightarrow> string list \<Rightarrow> string list \<Rightarrow>
     py_error + string list \<times> string list" where
  "rpn_token ops token output stack =
     (if check_is_number ops token then Inr (output @ [token], stack)
      else
        (case operators token of
           Some entry \<Rightarrow>
             (case pop_operators entry stack output of
                (stack1, output1) \<Rightarrow> Inr (output1, stack1 @ [token]))
         | None \<Rightarrow>
             if token = ''('' then Inr (output, stack @ [token])
             else if token = '')'' then
               (case pop_until_paren stack output of
                  (stack1, output1) \<Rightarrow>
                    if stack1 = [] then Inl (IndexError ''pop from empty list'')
                    else Inr (output1, butlast stack1))
             else Inr (output, stack)))"

fun rpn_loop ::
  "'v float_ops \<Rightarrow> string list \<Rightarrow> string list \<Rightarrow> string list \<Rightarrow>
     py_error + string list \<times> string list" where
  "rpn_loop ops [] output stack = Inr (output, stack)"
| "rpn_loop ops (token # tokens) output stack =
     (case rpn_token ops token output stack of
        Inl e \<Rightarrow> Inl e
      | Inr (output1, stack1) \<Rightarrow> rpn_loop ops tokens output1 stack1)"

text \<open>\<^verbatim>\<open>while stack: output.append(stack.pop())\<close>\<close>

function pop_remaining :: "string list \<Rightarrow> string list \<Rightarrow> string list" where
  "pop_remaining stack output =
     (if stack \<noteq> [] then pop_remaining (butlast stack) (output @ [last stack]) else output)"
  by pat_completeness auto
termination
  by (relation "measure (\<lambda>(stack, output). length stack)") auto

declare pop_remaining.simps [simp del]

text \<open>\<^verbatim>\<open>infix_to_rpn\<close> from the line after \<^verbatim>\<open>tokens = tokenize_string(expression)\<close>.\<close>

definition tokens_to_rpn :: "'v float_ops \<Rightarrow> string list \<Rightarrow> py_error + string list" where
  "tokens_to_rpn ops tokens =
     (case rpn_loop ops tokens [] [] of
        Inl e \<Rightarrow> Inl e
      | Inr (output, stack) \<Rightarrow> Inr (pop_remaining stack output))"

definition infix_to_rpn :: "'v float_ops \<Rightarrow> string \<Rightarrow> py_error + string list" where
  "infix_to_rpn ops expression =
     (case tokenize_string expression of
        Inl e \<Rightarrow> Inl e
      | Inr tokens \<Rightarrow> tokens_to_rpn ops tokens)"

section \<open>evaluate_rpn\<close>

text \<open>
  The \<^verbatim>\<open>if\<close>/\<^verbatim>\<open>elif\<close> chain on the token, with \<open>a\<close> and \<open>b\<close> popped and \<open>stack\<close> what
  is left. A token that is none of the five operators pushes nothing.
\<close>

definition apply_operator ::
  "'v float_ops \<Rightarrow> string \<Rightarrow> 'v \<Rightarrow> 'v \<Rightarrow> 'v list \<Rightarrow> py_error + 'v list" where
  "apply_operator ops token a b stack =
     (if token = ''+'' then Inr (stack @ [f_add ops a b])
      else if token = ''-'' then Inr (stack @ [f_sub ops a b])
      else if token = ''*'' then Inr (stack @ [f_mul ops a b])
      else if token = ''/'' then
        (if eq_zero ops b then Inl (ZeroDivisionError ''Division by zero is not allowed'')
         else Inr (stack @ [f_div ops a b]))
      else if token = ''^'' then
        (case math_pow ops a b of Inl e \<Rightarrow> Inl e | Inr v \<Rightarrow> Inr (stack @ [v]))
      else Inr stack)"

text \<open>The body of \<^verbatim>\<open>for token in rpn_expression\<close>.\<close>

definition evaluate_token :: "'v float_ops \<Rightarrow> string \<Rightarrow> 'v list \<Rightarrow> py_error + 'v list" where
  "evaluate_token ops token stack =
     (case py_float ops token of
        Some v \<Rightarrow> Inr (stack @ [v])
      | None \<Rightarrow>
          if stack = [] then Inl (IndexError ''pop from empty list'')
          else
            (let b = last stack; stack1 = butlast stack in
             if stack1 \<noteq> [] then apply_operator ops token (last stack1) b (butlast stack1)
             else apply_operator ops token (int_zero ops) b stack1))"

fun evaluate_loop :: "'v float_ops \<Rightarrow> string list \<Rightarrow> 'v list \<Rightarrow> py_error + 'v list" where
  "evaluate_loop ops [] stack = Inr stack"
| "evaluate_loop ops (token # tokens) stack =
     (case evaluate_token ops token stack of
        Inl e \<Rightarrow> Inl e
      | Inr stack1 \<Rightarrow> evaluate_loop ops tokens stack1)"

definition evaluate_rpn :: "'v float_ops \<Rightarrow> string list \<Rightarrow> py_error + 'v" where
  "evaluate_rpn ops rpn_expression =
     (case evaluate_loop ops rpn_expression [] of
        Inl e \<Rightarrow> Inl e
      | Inr stack \<Rightarrow>
          if stack = [] then Inl (IndexError ''list index out of range'')
          else Inr (stack ! 0))"

section \<open>evaluate_expression\<close>

definition evaluate_expression :: "'v float_ops \<Rightarrow> string \<Rightarrow> py_error + 'v" where
  "evaluate_expression ops expression =
     (case infix_to_rpn ops expression of
        Inl e \<Rightarrow> Inl e
      | Inr rpn \<Rightarrow> evaluate_rpn ops rpn)"

section \<open>An instance of the arithmetic: exact real numbers\<close>

text \<open>
  To run the program on concrete expressions, the operations are instantiated with the
  real numbers: no rounding, no overflow, no infinities and no NaN. On an input where
  every literal and every intermediate result is a number that double precision
  represents exactly (the small integers of the examples below), the double-precision
  run computes the same numbers.

  \<open>decimal_literal\<close> is \<^verbatim>\<open>float(s)\<close> on the strings made of the characters that the
  tokenizer puts into tokens (digits, \<^verbatim>\<open>.\<close>, the operator symbols and parentheses): an
  optional sign, then ASCII digits with at most one decimal point and at least one digit.
  The other forms that \<^verbatim>\<open>float\<close> accepts (exponents, \<^verbatim>\<open>inf\<close>, \<^verbatim>\<open>nan\<close>, underscores,
  surrounding whitespace) need a character that no token contains.
\<close>

definition ascii_digit :: "char \<Rightarrow> bool" where
  "ascii_digit c = (c \<in> set ''0123456789'')"

definition digits_value :: "string \<Rightarrow> nat" where
  "digits_value ds = foldl (\<lambda>n c. 10 * n + (of_char c - 48)) 0 ds"

definition unsigned_literal :: "string \<Rightarrow> real option" where
  "unsigned_literal s =
     (let int_part = takeWhile (\<lambda>c. c \<noteq> CHR ''.'') s;
          frac_part = drop 1 (dropWhile (\<lambda>c. c \<noteq> CHR ''.'') s)
      in if list_all ascii_digit int_part \<and> list_all ascii_digit frac_part
            \<and> int_part @ frac_part \<noteq> []
         then Some (real (digits_value int_part)
                    + real (digits_value frac_part) / 10 ^ length frac_part)
         else None)"

definition decimal_literal :: "string \<Rightarrow> real option" where
  "decimal_literal s =
     (case s of
        [] \<Rightarrow> None
      | c # t \<Rightarrow>
          if c = CHR ''-'' then map_option uminus (unsigned_literal t)
          else if c = CHR ''+'' then unsigned_literal t
          else unsigned_literal s)"

text \<open>
  \<^verbatim>\<open>math.pow\<close> on real numbers: a domain error for a zero base with a negative exponent
  and for a negative base with an exponent that is no integer.
\<close>

definition real_pow :: "real \<Rightarrow> real \<Rightarrow> py_error + real" where
  "real_pow a b =
     (if a = 0 \<and> b < 0 then Inl (ValueError ''math domain error'')
      else if a < 0 \<and> of_int \<lfloor>b\<rfloor> \<noteq> b then Inl (ValueError ''math domain error'')
      else if of_int \<lfloor>b\<rfloor> = b then
        (if 0 \<le> b then Inr (a ^ nat \<lfloor>b\<rfloor>) else Inr (inverse (a ^ nat (- \<lfloor>b\<rfloor>))))
      else Inr (a powr b))"

definition real_ops :: "real float_ops" where
  "real_ops =
     \<lparr>py_float = decimal_literal,
      f_add = (\<lambda>a b. a + b),
      f_sub = (\<lambda>a b. a - b),
      f_mul = (\<lambda>a b. a * b),
      f_div = (\<lambda>a b. a / b),
      math_pow = real_pow,
      eq_zero = (\<lambda>b. b = 0),
      int_zero = 0\<rparr>"

section \<open>Notions of the specification\<close>

text \<open>
  The position rule of the specification for a minus sign, in its words: the \<^verbatim>\<open>-\<close> at
  index \<open>i\<close> of the stripped text starts a negative-number literal when it is the first
  character or the character before it is one of \<^verbatim>\<open>( - + * / ^ )\<close>.
\<close>

definition negative_literal_position :: "string \<Rightarrow> nat \<Rightarrow> bool" where
  "negative_literal_position stripped i =
     (i = 0 \<or>
      stripped ! (i - 1) \<in>
        {CHR ''('', CHR ''-'', CHR ''+'', CHR ''*'', CHR ''/'', CHR ''^'', CHR '')''})"

text \<open>
  The characters that the specification lets the tokenizer accept: a digit, a decimal
  point, whitespace, an operator symbol of the table, or a parenthesis. A digit is a
  character with \<^verbatim>\<open>str.isdigit\<close>, which besides \<^verbatim>\<open>0\<close> to \<^verbatim>\<open>9\<close> holds for the
  superscript digits U+00B2, U+00B3 and U+00B9. Whitespace is a character with
  \<^verbatim>\<open>str.isspace\<close>: below code point 256 these are the space, the control characters
  U+0009 to U+000D and U+001C to U+001F, U+0085 and U+00A0.
\<close>

definition whitespace :: "char \<Rightarrow> bool" where
  "whitespace c =
     (c \<in> {CHR '' '', CHR 0x09, CHR 0x0A, CHR 0x0B, CHR 0x0C, CHR 0x0D,
            CHR 0x1C, CHR 0x1D, CHR 0x1E, CHR 0x1F, CHR 0x85, CHR 0xA0})"

definition specified_character :: "char \<Rightarrow> bool" where
  "specified_character c =
     (isdigit c \<or> c = CHR ''.'' \<or> whitespace c \<or> operators [c] \<noteq> None \<or> c \<in> set ''()'')"

text \<open>The same with the space as the only whitespace.\<close>

definition accepted_character :: "char \<Rightarrow> bool" where
  "accepted_character c =
     (isdigit c \<or> c = CHR ''.'' \<or> c = CHR '' '' \<or> operators [c] \<noteq> None \<or> c \<in> set ''()'')"

text \<open>
  The position that the \<^verbatim>\<open>LexError{char, position}\<close> of the specification would carry:
  the index of the first character of the text that the tokenizer is not to accept.
\<close>

definition unexpected_position :: "string \<Rightarrow> nat" where
  "unexpected_position s = length (takeWhile specified_character s)"

text \<open>
  Standard infix arithmetic over \<^verbatim>\<open>+ - * /\<close> and parentheses: an expression as the
  tree of its standard reading, the text it is written as, and its value, with the
  operations of the same float arithmetic.
\<close>

datatype binary_operator = Plus | Minus | Times | Divide

datatype infix_expression =
    Literal string
  | Binary infix_expression binary_operator infix_expression
  | Parenthesised infix_expression

fun symbol :: "binary_operator \<Rightarrow> char" where
  "symbol Plus = CHR ''+''"
| "symbol Minus = CHR ''-''"
| "symbol Times = CHR ''*''"
| "symbol Divide = CHR ''/''"

fun written :: "infix_expression \<Rightarrow> string" where
  "written (Literal s) = s"
| "written (Binary l operator r) = written l @ [symbol operator] @ written r"
| "written (Parenthesised e) = ''('' @ written e @ '')''"

fun binary_value :: "'v float_ops \<Rightarrow> binary_operator \<Rightarrow> 'v \<Rightarrow> 'v \<Rightarrow> py_error + 'v" where
  "binary_value ops Plus a b = Inr (f_add ops a b)"
| "binary_value ops Minus a b = Inr (f_sub ops a b)"
| "binary_value ops Times a b = Inr (f_mul ops a b)"
| "binary_value ops Divide a b =
     (if eq_zero ops b then Inl (ZeroDivisionError ''Division by zero is not allowed'')
      else Inr (f_div ops a b))"

fun standard_value :: "'v float_ops \<Rightarrow> infix_expression \<Rightarrow> py_error + 'v" where
  "standard_value ops (Literal s) =
     (case py_float ops s of
        None \<Rightarrow> Inl (ValueError ''could not convert string to float'')
      | Some v \<Rightarrow> Inr v)"
| "standard_value ops (Binary l operator r) =
     (case standard_value ops l of
        Inl e \<Rightarrow> Inl e
      | Inr a \<Rightarrow>
          (case standard_value ops r of
             Inl e \<Rightarrow> Inl e
           | Inr b \<Rightarrow> binary_value ops operator a b))"
| "standard_value ops (Parenthesised e) = standard_value ops e"

text \<open>
  The tokens of an expression in the order it is written, and in postfix order.
\<close>

fun tokens_of :: "infix_expression \<Rightarrow> string list" where
  "tokens_of (Literal s) = [s]"
| "tokens_of (Binary l operator r) = tokens_of l @ [[symbol operator]] @ tokens_of r"
| "tokens_of (Parenthesised e) = [''(''] @ tokens_of e @ ['')'']"

fun postfix :: "infix_expression \<Rightarrow> string list" where
  "postfix (Literal s) = [s]"
| "postfix (Binary l operator r) = postfix l @ postfix r @ [[symbol operator]]"
| "postfix (Parenthesised e) = postfix e"

text \<open>
  The standard reading: \<^verbatim>\<open>*\<close> and \<^verbatim>\<open>/\<close> bind tighter than \<^verbatim>\<open>+\<close> and \<^verbatim>\<open>-\<close>, and
  operators of the same level group to the left. A tree is the standard reading of its
  text when the left operand of an operator has no operator of a lower level at its
  top, and the right operand none of a lower or the same level. A literal is a run of
  digits and decimal points, with an optional minus sign in front.
\<close>

fun level :: "binary_operator \<Rightarrow> int" where
  "level Plus = 1"
| "level Minus = 1"
| "level Times = 2"
| "level Divide = 2"

fun top_level :: "infix_expression \<Rightarrow> int" where
  "top_level (Binary l operator r) = level operator"
| "top_level e = 3"

definition literal_text :: "string \<Rightarrow> bool" where
  "literal_text s =
     (case s of
        [] \<Rightarrow> False
      | c # t \<Rightarrow>
          if c = CHR ''-'' then t \<noteq> [] \<and> list_all (\<lambda>d. isdigit d \<or> d = CHR ''.'') t
          else list_all (\<lambda>d. isdigit d \<or> d = CHR ''.'') s)"

fun standard_reading :: "infix_expression \<Rightarrow> bool" where
  "standard_reading (Literal s) = literal_text s"
| "standard_reading (Binary l operator r) =
     (standard_reading l \<and> standard_reading r \<and>
      level operator \<le> top_level l \<and> level operator < top_level r)"
| "standard_reading (Parenthesised e) = standard_reading e"

text \<open>An expression in which some binary \<^verbatim>\<open>-\<close> comes directly after a \<^verbatim>\<open>)\<close>.\<close>

fun ends_with_paren :: "infix_expression \<Rightarrow> bool" where
  "ends_with_paren (Literal s) = False"
| "ends_with_paren (Binary l operator r) = ends_with_paren r"
| "ends_with_paren (Parenthesised e) = True"

fun minus_after_paren :: "infix_expression \<Rightarrow> bool" where
  "minus_after_paren (Literal s) = False"
| "minus_after_paren (Binary l operator r) =
     (minus_after_paren l \<or> minus_after_paren r \<or> (operator = Minus \<and> ends_with_paren l))"
| "minus_after_paren (Parenthesised e) = minus_after_paren e"

text \<open>
  What the expression needs of \<^verbatim>\<open>float\<close>: it reads every literal of the expression, and
  it reads no operator symbol and no parenthesis as a number.
\<close>

fun literals :: "infix_expression \<Rightarrow> string list" where
  "literals (Literal s) = [s]"
| "literals (Binary l operator r) = literals l @ literals r"
| "literals (Parenthesised e) = literals e"

definition float_reads :: "'v float_ops \<Rightarrow> infix_expression \<Rightarrow> bool" where
  "float_reads ops e =
     (list_all (\<lambda>s. py_float ops s \<noteq> None) (literals e) \<and>
      list_all (\<lambda>s. py_float ops s = None) [''+'', ''-'', ''*'', ''/'', ''('', '')''])"

section \<open>Invariants of the converter\<close>

text \<open>
  Operators that wait on the stack above a given stack, all of level \<open>n\<close> or higher; and
  a stack whose top is no operator of level \<open>n\<close> or higher.
\<close>

definition pending :: "int \<Rightarrow> string list \<Rightarrow> bool" where
  "pending n ps =
     list_all (\<lambda>t. case operators t of None \<Rightarrow> False | Some entry \<Rightarrow> n \<le> fst entry) ps"

definition guarded :: "int \<Rightarrow> string list \<Rightarrow> bool" where
  "guarded n stack =
     (stack = [] \<or>
      (case operators (last stack) of None \<Rightarrow> True | Some entry \<Rightarrow> fst entry < n))"

section \<open>Running the program on concrete inputs\<close>

lemmas run_tokenize =
  tokenize_string_def tokenize_loop.simps tokenize_char_def flush_number_def isdigit_def
  operators_def Let_def

lemmas run_rpn =
  infix_to_rpn_def tokens_to_rpn_def rpn_token_def check_is_number_def pop_operators.simps
  pop_condition_def pop_until_paren.simps pop_remaining.simps

lemmas run_evaluate =
  evaluate_expression_def evaluate_rpn_def evaluate_token_def apply_operator_def

lemmas run_real =
  real_ops_def decimal_literal_def unsigned_literal_def ascii_digit_def digits_value_def
  real_pow_def

lemmas run = run_tokenize run_rpn run_evaluate run_real

section \<open>The evaluator\<close>

lemma evaluate_loop_error:
  "evaluate_token ops token stack = Inl e \<Longrightarrow> evaluate_loop ops (token # tokens) stack = Inl e"
  by simp

lemma evaluate_loop_append:
  "evaluate_loop ops (xs @ ys) stack =
     (case evaluate_loop ops xs stack of Inl e \<Rightarrow> Inl e | Inr stack1 \<Rightarrow> evaluate_loop ops ys stack1)"
  by (induction xs arbitrary: stack) (auto split: sum.splits)

text \<open>
  C9. When the evaluator processes a token that is no number, it pops the right operand
  \<open>b\<close>, which is required (\<^verbatim>\<open>IndexError\<close> on the empty stack), and pops the left
  operand \<open>a\<close> only if the stack is still non-empty; otherwise \<open>a\<close> is \<^verbatim>\<open>0\<close>. An
  operator reached with exactly one value \<open>b\<close> on the stack computes \<open>0 op b\<close>: for
  \<^verbatim>\<open>+\<close>, \<^verbatim>\<open>-\<close> and \<^verbatim>\<open>*\<close> the result is pushed, \<^verbatim>\<open>/\<close> and \<^verbatim>\<open>^\<close> are \<open>0 / b\<close> and
  \<open>pow(0, b)\<close> with their own failures.
\<close>

theorem evaluate_token_operands:
  "py_float ops token = None \<Longrightarrow>
     evaluate_token ops token [] = Inl (IndexError ''pop from empty list'') \<and>
     evaluate_token ops token [b] = apply_operator ops token (int_zero ops) b [] \<and>
     evaluate_token ops token (stack @ [a, b]) = apply_operator ops token a b stack \<and>
     apply_operator ops ''+'' (int_zero ops) b [] = Inr [f_add ops (int_zero ops) b] \<and>
     apply_operator ops ''-'' (int_zero ops) b [] = Inr [f_sub ops (int_zero ops) b] \<and>
     apply_operator ops ''*'' (int_zero ops) b [] = Inr [f_mul ops (int_zero ops) b] \<and>
     apply_operator ops ''/'' (int_zero ops) b [] =
       (if eq_zero ops b then Inl (ZeroDivisionError ''Division by zero is not allowed'')
        else Inr [f_div ops (int_zero ops) b]) \<and>
     apply_operator ops ''^'' (int_zero ops) b [] =
       (case math_pow ops (int_zero ops) b of Inl e \<Rightarrow> Inl e | Inr v \<Rightarrow> Inr [v])"
  by (simp add: evaluate_token_def apply_operator_def butlast_append split: sum.splits)

theorem evaluate_token_operands_witness:
  "py_float real_ops ''-'' = None \<and>
   evaluate_token real_ops ''-'' [] = Inl (IndexError ''pop from empty list'') \<and>
   evaluate_token real_ops ''-'' [3] = Inr [- 3] \<and>
   evaluate_token real_ops ''-'' [7, 5, 3] = Inr [7, 2] \<and>
   evaluate_expression real_ops ''-(2+3)'' = Inr (- 5)"
proof -
  have n: "py_float real_ops ''-'' = None"
    by (simp add: run_real)
  have e: "evaluate_expression real_ops ''-(2+3)'' = Inr (- 5)"
    by (simp add: run)
  from evaluate_token_operands [OF n, where b = 3 and stack = "[7]" and a = 5] n e show ?thesis
    by (simp add: apply_operator_def real_ops_def)
qed

text \<open>
  C6. Evaluating \<^verbatim>\<open>/\<close> fails with \<^verbatim>\<open>ZeroDivisionError\<close> exactly when the popped right
  operand \<open>b\<close> satisfies \<^verbatim>\<open>b == 0\<close>, a plain comparison without tolerance, and then no
  value is returned: when the tokens before a \<^verbatim>\<open>/\<close> leave a stack whose top is zero,
  \<^verbatim>\<open>evaluate_rpn\<close> fails with that error whatever follows. In particular
  \<^verbatim>\<open>evaluate_expression("4/0")\<close> fails with \<^verbatim>\<open>ZeroDivisionError\<close>, while a small divisor
  that is not zero divides.
\<close>

theorem division_by_zero:
  "py_float ops ''/'' = None \<Longrightarrow> stack \<noteq> [] \<Longrightarrow>
     ((\<exists>msg. evaluate_token ops ''/'' stack = Inl (ZeroDivisionError msg))
        = eq_zero ops (last stack)) \<and>
     (eq_zero ops (last stack) \<longrightarrow>
        evaluate_token ops ''/'' stack
          = Inl (ZeroDivisionError ''Division by zero is not allowed'') \<and>
        (evaluate_loop ops before [] = Inr stack \<longrightarrow>
           evaluate_rpn ops (before @ ''/'' # tokens)
             = Inl (ZeroDivisionError ''Division by zero is not allowed''))) \<and>
     (\<not> eq_zero ops (last stack) \<longrightarrow> (\<exists>stack1. evaluate_token ops ''/'' stack = Inr stack1)) \<and>
     evaluate_expression real_ops ''4/0'' = Inl (ZeroDivisionError ''Division by zero is not allowed'') \<and>
     evaluate_expression real_ops ''4/0.001'' = Inr 4000"
proof -
  assume n: "py_float ops ''/'' = None" and s: "stack \<noteq> []"
  have a: "evaluate_expression real_ops ''4/0'' = Inl (ZeroDivisionError ''Division by zero is not allowed'')"
    by (simp add: run)
  have b: "evaluate_expression real_ops ''4/0.001'' = Inr 4000"
    by (simp add: run)
  from n s a b show ?thesis
    by (simp add: evaluate_rpn_def evaluate_loop_append evaluate_token_def apply_operator_def
        Let_def)
qed

theorem division_by_zero_witness:
  "py_float real_ops ''/'' = None \<and> [4, 0 :: real] \<noteq> [] \<and>
   eq_zero real_ops (last [4, 0]) \<and>
   evaluate_token real_ops ''/'' [4, 0] = Inl (ZeroDivisionError ''Division by zero is not allowed'') \<and>
   evaluate_loop real_ops [''4'', ''0''] [] = Inr [4, 0] \<and>
   evaluate_rpn real_ops ([''4'', ''0''] @ ''/'' # [''1'', ''+''])
     = Inl (ZeroDivisionError ''Division by zero is not allowed'') \<and>
   \<not> eq_zero real_ops (last [4, 1 / 1000]) \<and>
   evaluate_token real_ops ''/'' [4, 1 / 1000] = Inr [4000]"
proof -
  have n: "py_float real_ops ''/'' = None"
    by (simp add: run_real)
  have s: "[4, 0 :: real] \<noteq> []"
    by simp
  have z: "eq_zero real_ops (last [4, 0])"
    by (simp add: real_ops_def)
  have l: "evaluate_loop real_ops [''4'', ''0''] [] = Inr [4, 0]"
    by (simp add: run)
  have t: "evaluate_token real_ops ''/'' [4, 1 / 1000] = Inr [4000]"
    by (simp add: run)
  from division_by_zero [OF n s, of "[''4'', ''0'']" "[''1'', ''+'']"] n z l t show ?thesis
    by (simp add: real_ops_def)
qed

text \<open>
  C10. Whenever the loop of the evaluator finishes with more than one value on its
  stack, \<^verbatim>\<open>evaluate_rpn\<close> returns \<^verbatim>\<open>stack[0]\<close>, the bottom-most entry, not the one
  pushed last. For \<^verbatim>\<open>(2+3)-4\<close> the tokenizer reads \<^verbatim>\<open>-4\<close> as a literal, the postfix
  sequence is \<^verbatim>\<open>2 3 + -4\<close>, the final stack is \<open>[5, -4]\<close> and the result is \<open>5\<close>.
\<close>

theorem evaluate_rpn_bottom:
  "(evaluate_loop ops rpn [] = Inr stack \<and> 1 < length stack \<longrightarrow>
      evaluate_rpn ops rpn = Inr (hd stack)) \<and>
   infix_to_rpn real_ops ''(2+3)-4'' = Inr [''2'', ''3'', ''+'', ''-4''] \<and>
   evaluate_loop real_ops [''2'', ''3'', ''+'', ''-4''] [] = Inr [5, - 4] \<and>
   evaluate_expression real_ops ''(2+3)-4'' = Inr 5"
proof -
  have a: "evaluate_loop ops rpn [] = Inr stack \<and> 1 < length stack \<longrightarrow>
      evaluate_rpn ops rpn = Inr (hd stack)"
    by (cases stack) (simp_all add: evaluate_rpn_def)
  have b: "infix_to_rpn real_ops ''(2+3)-4'' = Inr [''2'', ''3'', ''+'', ''-4'']"
    by (simp add: run)
  have c: "evaluate_loop real_ops [''2'', ''3'', ''+'', ''-4''] [] = Inr [5, - 4]"
    by (simp add: run)
  have d: "evaluate_expression real_ops ''(2+3)-4'' = Inr 5"
    by (simp add: run)
  from a b c d show ?thesis
    by blast
qed

theorem evaluate_rpn_bottom_witness:
  "evaluate_loop real_ops [''7'', ''8'', ''9''] [] = Inr [7, 8, 9] \<and>
   1 < length [7, 8, 9 :: real] \<and>
   evaluate_rpn real_ops [''7'', ''8'', ''9''] = Inr 7"
proof -
  have l: "evaluate_loop real_ops [''7'', ''8'', ''9''] [] = Inr [7, 8, 9]"
    by (simp add: run)
  from evaluate_rpn_bottom [of real_ops "[''7'', ''8'', ''9'']" "[7, 8, 9]"] l show ?thesis
    by simp
qed

text \<open>
  C8, the claim as stated fails. Given the empty token sequence the evaluator has no
  dedicated error: reading \<^verbatim>\<open>stack[0]\<close> raises the plain \<^verbatim>\<open>IndexError\<close>, which
  \<^verbatim>\<open>evaluate_expression\<close> passes on, here for a string of three spaces.
\<close>

theorem empty_expression_counterexample:
  "evaluate_expression real_ops ''   '' = Inl (IndexError ''list index out of range'')"
  by (simp add: run)

text \<open>
  C8, amended. Given the empty token sequence, \<^verbatim>\<open>evaluate_rpn\<close> returns no value: it
  fails with the \<^verbatim>\<open>IndexError\<close> of the read \<^verbatim>\<open>stack[0]\<close>, and so does
  \<^verbatim>\<open>evaluate_expression\<close> on the empty string and on every string of spaces, whatever
  the float arithmetic.
\<close>

theorem empty_expression:
  "evaluate_rpn ops [] = Inl (IndexError ''list index out of range'') \<and>
   evaluate_expression ops (replicate n (CHR '' '')) = Inl (IndexError ''list index out of range'')"
proof -
  have f: "filter (\<lambda>c. c \<noteq> CHR '' '') (replicate n (CHR '' '')) = []"
    by simp
  have t: "tokenize_string (replicate n (CHR '' '')) = Inr []"
    unfolding tokenize_string_def f by (simp add: tokenize_loop.simps flush_number_def)
  have r: "infix_to_rpn ops (replicate n (CHR '' '')) = Inr []"
    unfolding infix_to_rpn_def t by (simp add: tokens_to_rpn_def pop_remaining.simps)
  have e: "evaluate_rpn ops [] = Inl (IndexError ''list index out of range'')"
    by (simp add: evaluate_rpn_def)
  show ?thesis
    unfolding evaluate_expression_def r using e by simp
qed

section \<open>The tokenizer\<close>

lemma tokenize_loop_step:
  "i < length expression \<Longrightarrow>
     tokenize_char expression i tokens current_number = Inr (tokens1, current1) \<Longrightarrow>
     tokenize_loop expression i tokens current_number
       = tokenize_loop expression (i + 1) tokens1 current1"
  by (subst tokenize_loop.simps) simp

text \<open>
  C3. At a \<^verbatim>\<open>-\<close> of the stripped expression the tokenizer first flushes the pending
  number. Then, exactly when the \<^verbatim>\<open>-\<close> is the first character or follows one of
  \<^verbatim>\<open>( - + * / ^ )\<close>, it starts the next pending number with the \<^verbatim>\<open>-\<close> and appends no
  token; otherwise it appends the token \<^verbatim>\<open>-\<close> and the pending number stays empty. The
  loop goes on from the next index in that state. In particular
  \<^verbatim>\<open>evaluate_expression("-53 + -24")\<close> is \<open>-77\<close>.
\<close>

theorem minus_sign:
  "(i < length expression \<and> expression ! i = CHR ''-'' \<longrightarrow>
      tokenize_char expression i tokens current_number =
        (if negative_literal_position expression i
         then Inr (fst (flush_number tokens current_number), ''-'')
         else Inr (fst (flush_number tokens current_number) @ [''-''], [])) \<and>
      tokenize_loop expression i tokens current_number =
        (if negative_literal_position expression i
         then tokenize_loop expression (i + 1) (fst (flush_number tokens current_number)) ''-''
         else tokenize_loop expression (i + 1)
                (fst (flush_number tokens current_number) @ [''-'']) [])) \<and>
   tokenize_string ''3-(-2)'' = Inr [''3'', ''-'', ''('', ''-2'', '')''] \<and>
   tokenize_string ''-53 + -24'' = Inr [''-53'', ''+'', ''-24''] \<and>
   evaluate_expression real_ops ''-53 + -24'' = Inr (- 77)"
proof -
  have step: "tokenize_char expression i tokens current_number =
        (if negative_literal_position expression i
         then Inr (fst (flush_number tokens current_number), ''-'')
         else Inr (fst (flush_number tokens current_number) @ [''-''], []))"
    if "expression ! i = CHR ''-''"
    using that
    by (simp add: tokenize_char_def negative_literal_position_def flush_number_def isdigit_def
        operators_def)
  have loop: "tokenize_loop expression i tokens current_number =
        (if negative_literal_position expression i
         then tokenize_loop expression (i + 1) (fst (flush_number tokens current_number)) ''-''
         else tokenize_loop expression (i + 1)
                (fst (flush_number tokens current_number) @ [''-'']) [])"
    if "i < length expression" "expression ! i = CHR ''-''"
    using that step [OF that(2)] by (simp add: tokenize_loop_step)
  have a: "tokenize_string ''3-(-2)'' = Inr [''3'', ''-'', ''('', ''-2'', '')'']"
    by (simp add: run_tokenize)
  have b: "tokenize_string ''-53 + -24'' = Inr [''-53'', ''+'', ''-24'']"
    by (simp add: run_tokenize)
  have c: "evaluate_expression real_ops ''-53 + -24'' = Inr (- 77)"
    by (simp add: run)
  from step loop a b c show ?thesis
    by blast
qed

theorem minus_sign_witness:
  "(1::nat) < length ''3-2'' \<and> ''3-2'' ! 1 = CHR ''-'' \<and>
   \<not> negative_literal_position ''3-2'' 1 \<and>
   tokenize_char ''3-2'' 1 [] ''3'' = Inr ([''3'', ''-''], []) \<and>
   (2::nat) < length ''3*-2'' \<and> ''3*-2'' ! 2 = CHR ''-'' \<and>
   negative_literal_position ''3*-2'' 2 \<and>
   tokenize_char ''3*-2'' 2 [''3'', ''*''] [] = Inr ([''3'', ''*''], ''-'')"
  using minus_sign [of 1 "''3-2''" "[]" "''3''"] minus_sign [of 2 "''3*-2''" "[''3'', ''*'']" "[]"]
  by (simp add: negative_literal_position_def flush_number_def)

section \<open>The converter\<close>

subsection \<open>The three inner loops\<close>

lemma pop_operators_empty: "pop_operators entry [] output = ([], output)"
  by (simp add: pop_operators.simps)

lemma pop_operators_snoc:
  "pop_operators entry (stack @ [t]) output =
     (if pop_condition entry t then pop_operators entry stack (output @ [t])
      else (stack @ [t], output))"
  by (subst pop_operators.simps) simp

lemma pop_until_paren_empty: "pop_until_paren [] output = ([], output)"
  by (simp add: pop_until_paren.simps)

lemma pop_until_paren_snoc:
  "pop_until_paren (stack @ [t]) output =
     (if t \<noteq> ''('' then pop_until_paren stack (output @ [t]) else (stack @ [t], output))"
  by (subst pop_until_paren.simps) simp

lemma pop_until_paren_above:
  "''('' \<notin> set upper \<Longrightarrow>
     pop_until_paren (lower @ upper) output = pop_until_paren lower (output @ rev upper)"
proof (induction upper arbitrary: "output" rule: rev_induct)
  case Nil
  then show ?case by simp
next
  case (snoc t upper)
  have "pop_until_paren ((lower @ upper) @ [t]) output
          = pop_until_paren (lower @ upper) (output @ [t])"
  proof -
    from snoc.prems have "t \<noteq> ''(''"
      by auto
    then show ?thesis
      by (subst pop_until_paren_snoc) simp
  qed
  then show ?case
    using snoc by simp
qed

lemma pop_remaining_rev: "pop_remaining stack output = output @ rev stack"
proof (induction stack arbitrary: "output" rule: rev_induct)
  case Nil
  then show ?case by (simp add: pop_remaining.simps)
next
  case (snoc t stack)
  have "pop_remaining (stack @ [t]) output = pop_remaining stack (output @ [t])"
    by (subst pop_remaining.simps) simp
  then show ?case
    using snoc by simp
qed

text \<open>What a loop pops goes to the output in the order of popping, and the rest stays.\<close>

lemma pop_operators_popped:
  "pop_operators entry stack output = (stack1, output1) \<Longrightarrow>
     \<exists>popped. stack = stack1 @ popped \<and> output1 = output @ rev popped \<and>
       (\<forall>t \<in> set popped. operators t \<noteq> None)"
proof (induction stack arbitrary: "output" rule: rev_induct)
  case Nil
  then show ?case by (simp add: pop_operators_empty)
next
  case (snoc t stack)
  show ?case
  proof (cases "pop_condition entry t")
    case True
    then have "pop_operators entry stack (output @ [t]) = (stack1, output1)"
      using snoc.prems by (simp add: pop_operators_snoc)
    from snoc.IH [OF this] obtain popped where
      p: "stack = stack1 @ popped" "output1 = (output @ [t]) @ rev popped"
         "\<forall>t \<in> set popped. operators t \<noteq> None"
      by blast
    from True have "operators t \<noteq> None"
      by (auto simp: pop_condition_def split: option.splits)
    with p have "stack @ [t] = stack1 @ (popped @ [t]) \<and> output1 = output @ rev (popped @ [t]) \<and>
        (\<forall>u \<in> set (popped @ [t]). operators u \<noteq> None)"
      by simp
    then show ?thesis by blast
  next
    case False
    then have "stack1 = stack @ [t] \<and> output1 = output"
      using snoc.prems by (simp add: pop_operators_snoc)
    then show ?thesis by simp
  qed
qed

lemma pop_until_paren_popped:
  "pop_until_paren stack output = (stack1, output1) \<Longrightarrow>
     \<exists>popped. stack = stack1 @ popped \<and> output1 = output @ rev popped \<and>
       ''('' \<notin> set popped \<and> (stack1 = [] \<or> last stack1 = ''('')"
proof (induction stack arbitrary: "output" rule: rev_induct)
  case Nil
  then show ?case by (simp add: pop_until_paren_empty)
next
  case (snoc t stack)
  show ?case
  proof (cases "t = ''(''")
    case False
    then have "pop_until_paren stack (output @ [t]) = (stack1, output1)"
      using snoc.prems by (simp add: pop_until_paren_snoc)
    from snoc.IH [OF this] obtain popped where
      p: "stack = stack1 @ popped" "output1 = (output @ [t]) @ rev popped"
         "''('' \<notin> set popped" "stack1 = [] \<or> last stack1 = ''(''"
      by blast
    with False have "stack @ [t] = stack1 @ (popped @ [t]) \<and> output1 = output @ rev (popped @ [t]) \<and>
        ''('' \<notin> set (popped @ [t]) \<and> (stack1 = [] \<or> last stack1 = ''('')"
      by simp
    then show ?thesis by blast
  next
    case True
    then have "stack1 = stack @ [t] \<and> output1 = output"
      using snoc.prems by (simp add: pop_until_paren_snoc)
    with True show ?thesis by simp
  qed
qed

subsection \<open>The pop rule\<close>

lemma pop_condition_rule:
  "pop_condition (p, a) t =
     (\<exists>q b. operators t = Some (q, b) \<and> ((a = ''L'' \<and> p \<le> q) \<or> (a = ''R'' \<and> p < q)))"
  by (cases "operators t") (auto simp: pop_condition_def)

text \<open>
  C2. Let \<open>(p, a)\<close> be the precedence and associativity of the incoming operator. On the
  empty stack its loop pops nothing. On a stack with top \<open>t\<close> it pops \<open>t\<close> to the output
  and goes on exactly when \<open>t\<close> is an operator of precedence \<open>q\<close> and the incoming
  operator is left-associative with \<open>p \<le> q\<close> or right-associative with \<open>p < q\<close>;
  otherwise the loop ends and leaves stack and output as they are. Then the incoming
  operator is pushed. So \<^verbatim>\<open>^\<close> groups to the right, \<^verbatim>\<open>-\<close> to the left, and
  \<^verbatim>\<open>evaluate_expression("2^3^2")\<close> is \<open>512\<close>.
\<close>

theorem pop_rule:
  "operators token = Some (p, a) \<Longrightarrow>
     pop_operators (p, a) [] output = ([], output) \<and>
     pop_operators (p, a) (stack @ [t]) output =
       (if \<exists>q b. operators t = Some (q, b) \<and> ((a = ''L'' \<and> p \<le> q) \<or> (a = ''R'' \<and> p < q))
        then pop_operators (p, a) stack (output @ [t])
        else (stack @ [t], output)) \<and>
     (\<not> check_is_number ops token \<longrightarrow>
        rpn_token ops token output stack =
          (case pop_operators (p, a) stack output of
             (stack1, output1) \<Rightarrow> Inr (output1, stack1 @ [token]))) \<and>
     infix_to_rpn real_ops ''2^3^2'' = Inr [''2'', ''3'', ''2'', ''^'', ''^''] \<and>
     infix_to_rpn real_ops ''2-3-2'' = Inr [''2'', ''3'', ''-'', ''2'', ''-''] \<and>
     evaluate_expression real_ops ''2^3^2'' = Inr 512"
proof -
  assume entry: "operators token = Some (p, a)"
  have snoc: "pop_operators (p, a) (stack @ [t]) output =
       (if \<exists>q b. operators t = Some (q, b) \<and> ((a = ''L'' \<and> p \<le> q) \<or> (a = ''R'' \<and> p < q))
        then pop_operators (p, a) stack (output @ [t])
        else (stack @ [t], output))"
    by (simp only: pop_operators_snoc pop_condition_rule)
  have push: "\<not> check_is_number ops token \<longrightarrow>
        rpn_token ops token output stack =
          (case pop_operators (p, a) stack output of
             (stack1, output1) \<Rightarrow> Inr (output1, stack1 @ [token]))"
    using entry by (simp add: rpn_token_def)
  have pow: "infix_to_rpn real_ops ''2^3^2'' = Inr [''2'', ''3'', ''2'', ''^'', ''^'']"
    by (simp add: run)
  have sub: "infix_to_rpn real_ops ''2-3-2'' = Inr [''2'', ''3'', ''-'', ''2'', ''-'']"
    by (simp add: run)
  have val: "evaluate_expression real_ops ''2^3^2'' = Inr 512"
    by (simp add: run)
  from snoc push pow sub val show ?thesis
    by (simp only: pop_operators_empty simp_thms)
qed

theorem pop_rule_witness:
  "operators ''-'' = Some (1, ''L'') \<and>
   pop_operators (1, ''L'') ([''(''] @ [''*'']) [''2'', ''3''] = ([''(''], [''2'', ''3'', ''*'']) \<and>
   operators ''^'' = Some (3, ''R'') \<and>
   pop_operators (3, ''R'') ([] @ [''^'']) [''2'', ''3''] = ([''^''], [''2'', ''3''])"
proof -
  have m: "operators ''-'' = Some (1, ''L'')"
    by (simp add: operators_def)
  have c: "operators ''^'' = Some (3, ''R'')"
    by (simp add: operators_def)
  have l: "pop_operators (1, ''L'') [''(''] [''2'', ''3'', ''*''] = ([''(''], [''2'', ''3'', ''*''])"
    by (simp add: pop_operators.simps pop_condition_def operators_def)
  from pop_rule [OF m, of "[''2'', ''3'']" "[''('']" "''*''" real_ops]
    pop_rule [OF c, of "[''2'', ''3'']" "[]" "''^''" real_ops]
    m c l
  show ?thesis
    by (simp add: operators_def)
qed

subsection \<open>Parentheses\<close>

lemma operators_paren: "operators '')'' = None" "operators ''('' = None"
  by (simp_all add: operators_def)

lemma right_paren_matched:
  "\<not> check_is_number ops '')'' \<Longrightarrow> ''('' \<notin> set upper \<Longrightarrow>
     rpn_token ops '')'' output (lower @ [''(''] @ upper) = Inr (output @ rev upper, lower)"
proof -
  assume n: "\<not> check_is_number ops '')''" and u: "''('' \<notin> set upper"
  have "pop_until_paren ((lower @ [''('']) @ upper) output
          = pop_until_paren (lower @ [''('']) (output @ rev upper)"
    using u by (rule pop_until_paren_above)
  then have "pop_until_paren (lower @ [''(''] @ upper) output = (lower @ [''(''], output @ rev upper)"
    by (simp add: pop_until_paren_snoc)
  then show ?thesis
    using n by (simp add: rpn_token_def operators_paren)
qed

text \<open>
  C5, the claim as stated fails: \<^verbatim>\<open>stack.pop()\<close> after the loop of the \<^verbatim>\<open>)\<close> branch is
  not guarded, and an unmatched \<^verbatim>\<open>)\<close> ends the conversion with \<^verbatim>\<open>IndexError\<close>.
\<close>

theorem right_paren_counterexample:
  "evaluate_expression real_ops ''2)'' = Inl (IndexError ''pop from empty list'')"
  by (simp add: run)

text \<open>
  C5, amended. Processing \<^verbatim>\<open>)\<close> pops to the output until the stack is empty or \<^verbatim>\<open>(\<close>
  is on top. With a \<^verbatim>\<open>(\<close> on the stack, the entries above the topmost \<^verbatim>\<open>(\<close> go to the
  output, last pushed first, and that \<^verbatim>\<open>(\<close> is popped and discarded. With no \<^verbatim>\<open>(\<close> on
  the stack (an unmatched \<^verbatim>\<open>)\<close>), the pop that follows the loop finds the stack empty
  and raises \<^verbatim>\<open>IndexError\<close>, which ends the conversion.
\<close>

theorem right_paren:
  "\<not> check_is_number ops '')'' \<Longrightarrow>
     (''('' \<notin> set upper \<longrightarrow>
        rpn_token ops '')'' output (lower @ [''(''] @ upper) = Inr (output @ rev upper, lower)) \<and>
     (''('' \<notin> set stack \<longrightarrow>
        rpn_token ops '')'' output stack = Inl (IndexError ''pop from empty list'') \<and>
        rpn_loop ops ('')'' # tokens) output stack = Inl (IndexError ''pop from empty list''))"
proof -
  assume n: "\<not> check_is_number ops '')''"
  have matched: "rpn_token ops '')'' output (lower @ [''(''] @ upper) = Inr (output @ rev upper, lower)"
    if "''('' \<notin> set upper"
    using n that by (rule right_paren_matched)
  have unmatched: "rpn_token ops '')'' output stack = Inl (IndexError ''pop from empty list'')"
    if "''('' \<notin> set stack"
  proof -
    have "pop_until_paren ([] @ stack) output = pop_until_paren [] (output @ rev stack)"
      using that by (rule pop_until_paren_above)
    then have "pop_until_paren stack output = ([], output @ rev stack)"
      by (simp add: pop_until_paren_empty)
    then show ?thesis
      using n by (simp add: rpn_token_def operators_paren)
  qed
  from matched unmatched show ?thesis
    by simp
qed

theorem right_paren_witness:
  "\<not> check_is_number real_ops '')'' \<and>
   ''('' \<notin> set [''+'', ''*''] \<and>
   rpn_token real_ops '')'' [''1'', ''2'', ''3''] ([''-''] @ [''(''] @ [''+'', ''*''])
     = Inr ([''1'', ''2'', ''3'', ''*'', ''+''], [''-'']) \<and>
   ''('' \<notin> set [''+''] \<and>
   rpn_token real_ops '')'' [''1'', ''2''] [''+''] = Inl (IndexError ''pop from empty list'')"
proof -
  have n: "\<not> check_is_number real_ops '')''"
    by (simp add: check_is_number_def run_real)
  from right_paren [OF n, of "[''+'', ''*'']" "[''1'', ''2'', ''3'']" "[''-'']" "[''+'']"]
    right_paren [OF n, of "[]" "[''1'', ''2'']" "[]" "[''+'']"]
    n
  show ?thesis
    by simp
qed

subsection \<open>What the output and the stack hold\<close>

text \<open>
  During the loop the output holds numbers and operators only, and the stack holds
  operators and \<^verbatim>\<open>(\<close> only.
\<close>

lemma rpn_token_holds:
  assumes step: "rpn_token ops token output stack = Inr (output1, stack1)"
    and out: "\<forall>t \<in> set output. check_is_number ops t \<or> operators t \<noteq> None"
    and stk: "\<forall>t \<in> set stack. operators t \<noteq> None \<or> t = ''(''"
  shows "(\<forall>t \<in> set output1. check_is_number ops t \<or> operators t \<noteq> None) \<and>
         (\<forall>t \<in> set stack1. operators t \<noteq> None \<or> t = ''('')"
proof (cases "check_is_number ops token")
  case True
  with step have "output1 = output @ [token]" "stack1 = stack"
    by (simp_all add: rpn_token_def)
  with True out stk show ?thesis
    by auto
next
  case number: False
  show ?thesis
  proof (cases "operators token")
    case (Some entry)
    obtain s o' where po: "pop_operators entry stack output = (s, o')"
      by (cases "pop_operators entry stack output")
    with step number Some have eq: "output1 = o'" "stack1 = s @ [token]"
      by (simp_all add: rpn_token_def)
    from pop_operators_popped [OF po] obtain popped where
      p: "stack = s @ popped" "o' = output @ rev popped"
         "\<forall>t \<in> set popped. operators t \<noteq> None"
      by blast
    from p out have "\<forall>t \<in> set o'. check_is_number ops t \<or> operators t \<noteq> None"
      by auto
    moreover from p stk Some have "\<forall>t \<in> set (s @ [token]). operators t \<noteq> None \<or> t = ''(''"
      by auto
    ultimately show ?thesis
      using eq by simp
  next
    case None
    show ?thesis
    proof (cases "token = ''(''")
      case True
      with step number None have "output1 = output" "stack1 = stack @ [token]"
        by (simp_all add: rpn_token_def)
      with True out stk show ?thesis
        by auto
    next
      case left: False
      show ?thesis
      proof (cases "token = '')''")
        case True
        obtain s o' where pu: "pop_until_paren stack output = (s, o')"
          by (cases "pop_until_paren stack output")
        with step number None left True have eq: "output1 = o'" "stack1 = butlast s"
          by (simp_all add: rpn_token_def split: if_splits)
        from pop_until_paren_popped [OF pu] obtain popped where
          p: "stack = s @ popped" "o' = output @ rev popped" "''('' \<notin> set popped"
          by blast
        from p stk have "\<forall>t \<in> set popped. operators t \<noteq> None"
          by auto
        with p out have "\<forall>t \<in> set o'. check_is_number ops t \<or> operators t \<noteq> None"
          by auto
        moreover from p stk have "\<forall>t \<in> set (butlast s). operators t \<noteq> None \<or> t = ''(''"
          by (auto dest: in_set_butlastD)
        ultimately show ?thesis
          using eq by simp
      next
        case False
        with step number None left have "output1 = output" "stack1 = stack"
          by (simp_all add: rpn_token_def)
        with out stk show ?thesis
          by simp
      qed
    qed
  qed
qed

lemma rpn_loop_holds:
  "rpn_loop ops tokens output stack = Inr (output1, stack1) \<Longrightarrow>
     \<forall>t \<in> set output. check_is_number ops t \<or> operators t \<noteq> None \<Longrightarrow>
     \<forall>t \<in> set stack. operators t \<noteq> None \<or> t = ''('' \<Longrightarrow>
     (\<forall>t \<in> set output1. check_is_number ops t \<or> operators t \<noteq> None) \<and>
     (\<forall>t \<in> set stack1. operators t \<noteq> None \<or> t = ''('')"
proof (induction tokens arbitrary: "output" stack)
  case Nil
  then show ?case by simp
next
  case (Cons token tokens)
  from Cons.prems(1) obtain o' s where
    step: "rpn_token ops token output stack = Inr (o', s)"
    and rest: "rpn_loop ops tokens o' s = Inr (output1, stack1)"
    by (auto split: sum.splits)
  from rpn_token_holds [OF step Cons.prems(2) Cons.prems(3)]
  have "\<forall>t \<in> set o'. check_is_number ops t \<or> operators t \<noteq> None"
    and "\<forall>t \<in> set s. operators t \<noteq> None \<or> t = ''(''"
    by simp_all
  with Cons.IH [OF rest] show ?case
    by simp
qed

text \<open>
  C4, the claim as stated fails: the loop that empties the stack at the end of the input
  appends every entry to the output, a \<^verbatim>\<open>(\<close> that was never closed as well.
\<close>

theorem output_tokens_counterexample:
  "infix_to_rpn real_ops ''(2'' = Inr [''2'', ''('']"
  by (simp add: run)

text \<open>
  C4, amended. When the loop over the tokens ends with the output \<open>output\<close> and the stack
  \<open>stack\<close>, the converter returns \<open>output\<close> followed by the stack, top first. \<open>output\<close>
  holds Number and Operator tokens only and \<open>stack\<close> holds Operator tokens and \<^verbatim>\<open>(\<close>
  only. So every token of the result is a Number, an Operator or \<^verbatim>\<open>(\<close>; a \<^verbatim>\<open>)\<close> never
  appears in it, and a \<^verbatim>\<open>(\<close> appears in it exactly when one remained on the stack at the
  end of the input: it is popped and appended, not discarded.
\<close>

theorem output_tokens:
  "rpn_loop ops tokens [] [] = Inr (output, stack) \<Longrightarrow>
     tokens_to_rpn ops tokens = Inr (output @ rev stack) \<and>
     (\<forall>t \<in> set output. check_is_number ops t \<or> operators t \<noteq> None) \<and>
     (\<forall>t \<in> set stack. operators t \<noteq> None \<or> t = ''('') \<and>
     (\<forall>t \<in> set (output @ rev stack).
        check_is_number ops t \<or> operators t \<noteq> None \<or> t = ''('') \<and>
     (\<not> check_is_number ops '')'' \<longrightarrow> '')'' \<notin> set (output @ rev stack)) \<and>
     (\<not> check_is_number ops ''('' \<longrightarrow>
        (''('' \<in> set (output @ rev stack)) = (''('' \<in> set stack))"
proof -
  assume loop: "rpn_loop ops tokens [] [] = Inr (output, stack)"
  have result: "tokens_to_rpn ops tokens = Inr (output @ rev stack)"
    using loop by (simp add: tokens_to_rpn_def pop_remaining_rev)
  from rpn_loop_holds [OF loop]
  have out: "\<forall>t \<in> set output. check_is_number ops t \<or> operators t \<noteq> None"
    and stk: "\<forall>t \<in> set stack. operators t \<noteq> None \<or> t = ''(''"
    by simp_all
  from out stk have all: "\<forall>t \<in> set (output @ rev stack).
        check_is_number ops t \<or> operators t \<noteq> None \<or> t = ''(''"
    by auto
  from all have right: "\<not> check_is_number ops '')'' \<longrightarrow> '')'' \<notin> set (output @ rev stack)"
    using operators_paren(1) by blast
  from out have left: "\<not> check_is_number ops ''('' \<longrightarrow>
        (''('' \<in> set (output @ rev stack)) = (''('' \<in> set stack)"
    using operators_paren(2) by auto
  from result out stk all right left show ?thesis
    by blast
qed

theorem output_tokens_witness:
  "rpn_loop real_ops [''1'', ''+'', ''('', ''2''] [] [] = Inr ([''1'', ''2''], [''+'', ''(''])  \<and>
   tokens_to_rpn real_ops [''1'', ''+'', ''('', ''2''] = Inr [''1'', ''2'', ''('', ''+''] \<and>
   \<not> check_is_number real_ops ''(''"
proof -
  have l: "rpn_loop real_ops [''1'', ''+'', ''('', ''2''] [] [] = Inr ([''1'', ''2''], [''+'', ''(''])"
    by (simp add: run)
  have n: "\<not> check_is_number real_ops ''(''"
    by (simp add: check_is_number_def run_real)
  from output_tokens [OF l] l n show ?thesis
    by simp
qed

section \<open>Unexpected characters\<close>

lemma minus_operator: "operators ''-'' \<noteq> None"
  by (simp add: operators_def)

lemma tokenize_char_accepts:
  "accepted_character (expression ! i) \<Longrightarrow> expression ! i \<noteq> CHR '' '' \<Longrightarrow>
     \<exists>r. tokenize_char expression i tokens current_number = Inr r"
  by (auto simp: tokenize_char_def accepted_character_def Let_def split: prod.splits)

lemma tokenize_char_rejects:
  "\<not> accepted_character (expression ! i) \<Longrightarrow>
     tokenize_char expression i tokens current_number
       = Inl (ValueError (''Unexpected character: '' @ [expression ! i]))"
proof -
  assume n: "\<not> accepted_character (expression ! i)"
  then have "expression ! i \<noteq> CHR ''-''"
    using minus_operator by (auto simp: accepted_character_def)
  with n show ?thesis
    by (auto simp: tokenize_char_def accepted_character_def Let_def split: prod.splits)
qed

lemma tokenize_loop_accepts:
  "\<forall>c \<in> set (drop i expression). accepted_character c \<and> c \<noteq> CHR '' '' \<Longrightarrow>
     \<exists>r. tokenize_loop expression i tokens current_number = Inr r"
proof (induction "length expression - i" arbitrary: i tokens current_number)
  case 0
  then show ?case by (simp add: tokenize_loop.simps)
next
  case (Suc n)
  then have i: "i < length expression"
    by simp
  then have d: "drop i expression = expression ! i # drop (i + 1) expression"
    by (simp add: Cons_nth_drop_Suc)
  with Suc.prems have here: "accepted_character (expression ! i)" "expression ! i \<noteq> CHR '' ''"
    and rest: "\<forall>c \<in> set (drop (i + 1) expression). accepted_character c \<and> c \<noteq> CHR '' ''"
    by simp_all
  from tokenize_char_accepts [OF here] obtain tokens1 current1 where
    step: "tokenize_char expression i tokens current_number = Inr (tokens1, current1)"
    by (metis surj_pair)
  from Suc.hyps(2) have "n = length expression - (i + 1)"
    by simp
  from Suc.hyps(1) [OF this rest] show ?case
    by (simp add: tokenize_loop_step [OF i step])
qed

lemma tokenize_loop_rejects:
  "find (\<lambda>c. \<not> accepted_character c) (drop i expression) = Some c \<Longrightarrow>
     CHR '' '' \<notin> set expression \<Longrightarrow>
     tokenize_loop expression i tokens current_number
       = Inl (ValueError (''Unexpected character: '' @ [c]))"
proof (induction "length expression - i" arbitrary: i tokens current_number)
  case 0
  then show ?case by simp
next
  case (Suc n)
  then have i: "i < length expression"
    by simp
  then have d: "drop i expression = expression ! i # drop (i + 1) expression"
    by (simp add: Cons_nth_drop_Suc)
  show ?case
  proof (cases "accepted_character (expression ! i)")
    case True
    from i Suc.prems(2) have "expression ! i \<noteq> CHR '' ''"
      by (metis nth_mem)
    from tokenize_char_accepts [OF True this] obtain tokens1 current1 where
      step: "tokenize_char expression i tokens current_number = Inr (tokens1, current1)"
      by (metis surj_pair)
    from Suc.prems(1) d True
    have rest: "find (\<lambda>c. \<not> accepted_character c) (drop (i + 1) expression) = Some c"
      by simp
    from Suc.hyps(2) have "n = length expression - (i + 1)"
      by simp
    from Suc.hyps(1) [OF this rest Suc.prems(2)] show ?thesis
      by (simp add: tokenize_loop_step [OF i step])
  next
    case False
    with Suc.prems(1) d have "c = expression ! i"
      by simp
    with False i show ?thesis
      by (subst tokenize_loop.simps) (simp add: tokenize_char_rejects)
  qed
qed

lemma find_stripped:
  "find (\<lambda>c. \<not> accepted_character c) (filter (\<lambda>c. c \<noteq> CHR '' '') expression)
     = find (\<lambda>c. \<not> accepted_character c) expression"
  by (induction expression) (auto simp: accepted_character_def)

lemma accepted_specified: "accepted_character c \<Longrightarrow> specified_character c"
  by (auto simp: accepted_character_def specified_character_def whitespace_def)

lemma specified_accepted:
  "specified_character c \<Longrightarrow> (whitespace c \<longrightarrow> c = CHR '' '') \<Longrightarrow> accepted_character c"
  by (auto simp: accepted_character_def specified_character_def)

lemma tokenize_string_accepts:
  assumes "\<forall>c \<in> set expression. accepted_character c"
  shows "\<exists>tokens. tokenize_string expression = Inr tokens"
proof -
  let ?stripped = "filter (\<lambda>c. c \<noteq> CHR '' '') expression"
  from assms have "\<forall>c \<in> set (drop 0 ?stripped). accepted_character c \<and> c \<noteq> CHR '' ''"
    by simp
  from tokenize_loop_accepts [OF this] obtain r where
    "tokenize_loop ?stripped 0 [] [] = Inr r"
    by blast
  then show ?thesis
    by (cases r) (simp add: tokenize_string_def)
qed

lemma tokenize_string_rejects:
  assumes "find (\<lambda>c. \<not> accepted_character c) expression = Some d"
  shows "tokenize_string expression = Inl (ValueError (''Unexpected character: '' @ [d]))"
proof -
  let ?stripped = "filter (\<lambda>c. c \<noteq> CHR '' '') expression"
  from assms have "find (\<lambda>c. \<not> accepted_character c) (drop 0 ?stripped) = Some d"
    by (simp add: find_stripped)
  moreover have "CHR '' '' \<notin> set ?stripped"
    by simp
  ultimately have "tokenize_loop ?stripped 0 [] []
      = Inl (ValueError (''Unexpected character: '' @ [d]))"
    by (rule tokenize_loop_rejects)
  then show ?thesis
    by (simp add: tokenize_string_def)
qed

lemma evaluate_expression_rejects:
  "tokenize_string expression = Inl e \<Longrightarrow> evaluate_expression ops expression = Inl e"
  by (simp add: evaluate_expression_def infix_to_rpn_def)

text \<open>
  C7, the claim as stated fails: the error of the tokenizer is no
  \<^verbatim>\<open>LexError{char, position}\<close>. It is Python's \<^verbatim>\<open>ValueError\<close> with a message that holds
  the character and nothing else, so the \<^verbatim>\<open>$\<close> at position 2 of \<^verbatim>\<open>2+$3\<close> and the \<^verbatim>\<open>$\<close>
  at position 0 of \<^verbatim>\<open>$3+2\<close> raise the same error.
\<close>

theorem error_position_counterexample:
  "unexpected_position ''2+$3'' = 2 \<and>
   unexpected_position ''$3+2'' = 0 \<and>
   tokenize_string ''2+$3'' = Inl (ValueError ''Unexpected character: $'') \<and>
   tokenize_string ''$3+2'' = Inl (ValueError ''Unexpected character: $'')"
  by (simp add: unexpected_position_def specified_character_def whitespace_def run_tokenize)

text \<open>
  C7, amended. The tokenizer fails with \<^verbatim>\<open>ValueError("Unexpected character: c")\<close>, which
  holds a character \<open>c\<close> of the input and no position, on any input containing a
  character that is not a digit, decimal point, whitespace, operator symbol or
  parenthesis; when the only whitespace of the input is the space, \<open>c\<close> is the first
  such character. It succeeds on every input that contains only digits, decimal points,
  spaces, operator symbols and parentheses. A digit is a character with
  \<^verbatim>\<open>str.isdigit\<close>, the superscript digits U+00B2, U+00B3 and U+00B9 included.
  \<^verbatim>\<open>evaluate_expression\<close> passes the error on; in particular
  \<^verbatim>\<open>evaluate_expression("2+$3")\<close> fails with that error for \<^verbatim>\<open>$\<close>. Nothing is said of
  an input whose only fault is a whitespace character other than the space.
\<close>

theorem unexpected_character:
  "((\<forall>c \<in> set expression. accepted_character c) \<longrightarrow>
      (\<exists>tokens. tokenize_string expression = Inr tokens)) \<and>
   ((\<exists>c \<in> set expression. \<not> specified_character c) \<longrightarrow>
      (\<exists>c \<in> set expression.
         tokenize_string expression = Inl (ValueError (''Unexpected character: '' @ [c])) \<and>
         evaluate_expression ops expression
           = Inl (ValueError (''Unexpected character: '' @ [c])))) \<and>
   ((\<forall>c \<in> set expression. whitespace c \<longrightarrow> c = CHR '' '') \<and>
    find (\<lambda>c. \<not> specified_character c) expression = Some c \<longrightarrow>
      tokenize_string expression = Inl (ValueError (''Unexpected character: '' @ [c])) \<and>
      evaluate_expression ops expression = Inl (ValueError (''Unexpected character: '' @ [c]))) \<and>
   (isdigit d = (d \<in> set ''0123456789'' \<or> d \<in> {CHR 0xB2, CHR 0xB3, CHR 0xB9})) \<and>
   evaluate_expression ops ''2+$3'' = Inl (ValueError ''Unexpected character: $'')"
proof -
  have some: "\<exists>c \<in> set expression.
         tokenize_string expression = Inl (ValueError (''Unexpected character: '' @ [c])) \<and>
         evaluate_expression ops expression
           = Inl (ValueError (''Unexpected character: '' @ [c]))"
    if "\<exists>c \<in> set expression. \<not> specified_character c"
  proof -
    from that have "\<exists>c \<in> set expression. \<not> accepted_character c"
      using accepted_specified by blast
    then obtain d where d: "find (\<lambda>c. \<not> accepted_character c) expression = Some d"
      by (cases "find (\<lambda>c. \<not> accepted_character c) expression") (auto simp: find_None_iff)
    then have "d \<in> set expression"
      by (auto simp: find_Some_iff)
    with tokenize_string_rejects [OF d] show ?thesis
      by (auto simp: evaluate_expression_rejects)
  qed
  have first: "tokenize_string expression = Inl (ValueError (''Unexpected character: '' @ [c])) \<and>
      evaluate_expression ops expression = Inl (ValueError (''Unexpected character: '' @ [c]))"
    if spaces: "\<forall>c \<in> set expression. whitespace c \<longrightarrow> c = CHR '' ''"
      and found: "find (\<lambda>c. \<not> specified_character c) expression = Some c"
  proof -
    from spaces have "\<forall>c \<in> set expression. accepted_character c = specified_character c"
      using accepted_specified specified_accepted by blast
    then have "find (\<lambda>c. \<not> accepted_character c) expression
        = find (\<lambda>c. \<not> specified_character c) expression"
      by (induction expression) simp_all
    with found have "find (\<lambda>c. \<not> accepted_character c) expression = Some c"
      by simp
    from tokenize_string_rejects [OF this] show ?thesis
      by (simp add: evaluate_expression_rejects)
  qed
  have "find (\<lambda>c. \<not> accepted_character c) ''2+$3'' = Some (CHR ''$'')"
    by (simp add: accepted_character_def isdigit_def operators_def)
  from tokenize_string_rejects [OF this]
  have dollar: "evaluate_expression ops ''2+$3'' = Inl (ValueError ''Unexpected character: $'')"
    by (simp add: evaluate_expression_rejects)
  have a: "(\<forall>c \<in> set expression. accepted_character c) \<longrightarrow>
      (\<exists>tokens. tokenize_string expression = Inr tokens)"
    using tokenize_string_accepts by blast
  have b: "(\<exists>c \<in> set expression. \<not> specified_character c) \<longrightarrow>
      (\<exists>c \<in> set expression.
         tokenize_string expression = Inl (ValueError (''Unexpected character: '' @ [c])) \<and>
         evaluate_expression ops expression
           = Inl (ValueError (''Unexpected character: '' @ [c])))"
    using some by (rule impI)
  have c: "(\<forall>c \<in> set expression. whitespace c \<longrightarrow> c = CHR '' '') \<and>
    find (\<lambda>c. \<not> specified_character c) expression = Some c \<longrightarrow>
      tokenize_string expression = Inl (ValueError (''Unexpected character: '' @ [c])) \<and>
      evaluate_expression ops expression = Inl (ValueError (''Unexpected character: '' @ [c]))"
    using first by (intro impI) (elim conjE)
  have digit: "isdigit d = (d \<in> set ''0123456789'' \<or> d \<in> {CHR 0xB2, CHR 0xB3, CHR 0xB9})"
    by (rule isdigit_def)
  show ?thesis
    by (rule conjI [OF a conjI [OF b conjI [OF c conjI [OF digit dollar]]]])
qed

theorem unexpected_character_witness:
  "list_all accepted_character ''1.5 + 2.5'' \<and>
   tokenize_string ''1.5 + 2.5'' = Inr [''1.5'', ''+'', ''2.5''] \<and>
   \<not> specified_character (CHR ''x'') \<and>
   find (\<lambda>c. \<not> specified_character c) ''2 + x*y'' = Some (CHR ''x'') \<and>
   tokenize_string ''2 + x*y'' = Inl (ValueError (''Unexpected character: '' @ [CHR ''x''])) \<and>
   evaluate_expression real_ops ''2 + x*y''
     = Inl (ValueError (''Unexpected character: '' @ [CHR ''x'']))"
proof -
  have la: "list_all accepted_character ''1.5 + 2.5''"
    by (simp add: accepted_character_def isdigit_def operators_def)
  then have a: "\<forall>c \<in> set ''1.5 + 2.5''. accepted_character c"
    by (simp only: list_all_iff)
  have t: "tokenize_string ''1.5 + 2.5'' = Inr [''1.5'', ''+'', ''2.5'']"
    by (simp add: run_tokenize)
  have x: "\<not> specified_character (CHR ''x'')"
    by (simp add: specified_character_def whitespace_def isdigit_def operators_def)
  have "list_all (\<lambda>c. whitespace c \<longrightarrow> c = CHR '' '') ''2 + x*y''"
    by (simp add: whitespace_def)
  then have w: "\<forall>c \<in> set ''2 + x*y''. whitespace c \<longrightarrow> c = CHR '' ''"
    by (simp only: list_all_iff)
  have f: "find (\<lambda>c. \<not> specified_character c) ''2 + x*y'' = Some (CHR ''x'')"
    by (simp add: specified_character_def whitespace_def isdigit_def operators_def)
  note good = unexpected_character [of "''1.5 + 2.5''" real_ops "CHR ''x''" "CHR ''0''",
      THEN conjunct1, THEN mp, OF a]
  note bad = unexpected_character [of "''2 + x*y''" real_ops "CHR ''x''" "CHR ''0''",
      THEN conjunct2, THEN conjunct2, THEN conjunct1, THEN mp, OF conjI [OF w f]]
  from good show ?thesis
    by - (rule conjI [OF la conjI [OF t conjI [OF x conjI [OF f bad]]]])
qed

section \<open>Standard infix arithmetic\<close>

subsection \<open>The evaluator on a postfix sequence\<close>

lemma symbol_not_number:
  "float_reads ops e \<Longrightarrow> py_float ops [symbol operator] = None"
  by (cases operator) (simp_all add: float_reads_def)

lemma apply_operator_binary:
  "apply_operator ops [symbol operator] a b stack =
     (case binary_value ops operator a b of Inl e \<Rightarrow> Inl e | Inr v \<Rightarrow> Inr (stack @ [v]))"
  by (cases operator) (simp_all add: apply_operator_def)

lemma evaluate_token_binary:
  "py_float ops [symbol operator] = None \<Longrightarrow>
     evaluate_token ops [symbol operator] (stack @ [a, b]) =
       (case binary_value ops operator a b of Inl e \<Rightarrow> Inl e | Inr v \<Rightarrow> Inr (stack @ [v]))"
  by (simp add: evaluate_token_def butlast_append apply_operator_binary)

lemma float_reads_Binary:
  "float_reads ops (Binary l operator r) = (float_reads ops l \<and> float_reads ops r)"
  by (auto simp: float_reads_def)

lemma evaluate_loop_postfix:
  "float_reads ops e \<Longrightarrow>
     evaluate_loop ops (postfix e) stack =
       (case standard_value ops e of Inl err \<Rightarrow> Inl err | Inr v \<Rightarrow> Inr (stack @ [v]))"
proof (induction e arbitrary: stack)
  case (Literal s)
  then show ?case
    by (auto simp: float_reads_def evaluate_token_def)
next
  case (Binary l operator r)
  from Binary.prems have fl: "float_reads ops l" and fr: "float_reads ops r"
    by (simp_all add: float_reads_Binary)
  have sym: "py_float ops [symbol operator] = None"
    using Binary.prems by (rule symbol_not_number)
  show ?case
  proof (cases "standard_value ops l")
    case (Inl err)
    then show ?thesis
      by (simp add: evaluate_loop_append Binary.IH(1) [OF fl])
  next
    case a: (Inr a)
    show ?thesis
    proof (cases "standard_value ops r")
      case (Inl err)
      then show ?thesis
        by (simp add: evaluate_loop_append Binary.IH(1) [OF fl] Binary.IH(2) [OF fr] a)
    next
      case b: (Inr b)
      have "evaluate_loop ops [[symbol operator]] (stack @ [a, b]) =
          (case binary_value ops operator a b of Inl e \<Rightarrow> Inl e | Inr v \<Rightarrow> Inr (stack @ [v]))"
        by (simp add: evaluate_token_binary [OF sym] split: sum.splits)
      then show ?thesis
        by (simp add: evaluate_loop_append Binary.IH(1) [OF fl] Binary.IH(2) [OF fr] a b)
    qed
  qed
next
  case (Parenthesised e)
  then show ?case
    by (simp add: float_reads_def)
qed

subsection \<open>The converter on the tokens of a standard reading\<close>

lemma operators_symbol: "operators [symbol operator] = Some (level operator, ''L'')"
  by (cases operator) (simp_all add: operators_def)

lemma pending_iff:
  "pending n ps = (\<forall>t \<in> set ps. \<exists>q b. operators t = Some (q, b) \<and> n \<le> q)"
  by (auto simp: pending_def list_all_iff split: option.splits)

lemma guarded_iff:
  "guarded n stack = (stack = [] \<or> \<not> (\<exists>q b. operators (last stack) = Some (q, b) \<and> n \<le> q))"
  by (cases "operators (last stack)") (auto simp: guarded_def)

lemma pop_operators_pending:
  "pending n ps \<Longrightarrow> guarded n stack \<Longrightarrow>
     pop_operators (n, ''L'') (stack @ ps) out = (stack, out @ rev ps)"
proof (induction ps arbitrary: out rule: rev_induct)
  case Nil
  then show ?case
    by (cases stack rule: rev_cases)
      (auto simp: pop_operators_empty pop_operators_snoc pop_condition_rule guarded_iff)
next
  case (snoc t ps)
  from snoc.prems(1) have "pop_condition (n, ''L'') t" and p: "pending n ps"
    by (auto simp: pending_iff pop_condition_rule)
  then have "pop_operators (n, ''L'') ((stack @ ps) @ [t]) out
      = pop_operators (n, ''L'') (stack @ ps) (out @ [t])"
    by (simp only: pop_operators_snoc if_True)
  with snoc.IH [OF p snoc.prems(2)] show ?case
    by simp
qed

lemma pending_no_paren: "pending n ps \<Longrightarrow> ''('' \<notin> set ps"
  by (auto simp: pending_iff operators_paren)

lemma rpn_loop_append:
  "rpn_loop ops (xs @ ys) out stack =
     (case rpn_loop ops xs out stack of
        Inl e \<Rightarrow> Inl e
      | Inr (out1, stack1) \<Rightarrow> rpn_loop ops ys out1 stack1)"
  by (induction xs arbitrary: out stack) (auto split: sum.splits)

lemma rpn_loop_tokens_of:
  "standard_reading e \<Longrightarrow> float_reads ops e \<Longrightarrow> guarded (top_level e) stack \<Longrightarrow>
     \<exists>xs ps. rpn_loop ops (tokens_of e) out stack = Inr (out @ xs, stack @ ps) \<and>
       xs @ rev ps = postfix e \<and> pending (top_level e) ps"
proof (induction e arbitrary: out stack)
  case (Literal s)
  then have "check_is_number ops s"
    by (simp add: float_reads_def check_is_number_def)
  then have "rpn_loop ops (tokens_of (Literal s)) out stack = Inr (out @ [s], stack @ [])"
    by (simp add: rpn_token_def)
  then show ?case
    by (auto simp: pending_iff)
next
  case (Binary l operator r)
  let ?n = "level operator" and ?sym = "[symbol operator]"
  from Binary.prems have sl: "standard_reading l" and sr: "standard_reading r"
    and ll: "?n \<le> top_level l" and lr: "?n < top_level r"
    and fl: "float_reads ops l" and fr: "float_reads ops r"
    and g: "guarded ?n stack"
    by (simp_all add: float_reads_Binary)
  from g ll have "guarded (top_level l) stack"
    by (auto simp: guarded_iff)
  from Binary.IH(1) [OF sl fl this] obtain xl pl where
    l: "rpn_loop ops (tokens_of l) out stack = Inr (out @ xl, stack @ pl)"
    and pl: "xl @ rev pl = postfix l" "pending (top_level l) pl"
    by blast
  from pl(2) ll have "pending ?n pl"
    by (fastforce simp: pending_iff)
  from pop_operators_pending [OF this g]
  have pop: "pop_operators (?n, ''L'') (stack @ pl) (out @ xl) = (stack, (out @ xl) @ rev pl)" .
  have "\<not> check_is_number ops ?sym"
    using symbol_not_number [OF Binary.prems(2)] by (simp add: check_is_number_def)
  with pop pl(1) have op: "rpn_token ops ?sym (out @ xl) (stack @ pl)
      = Inr (out @ postfix l, stack @ [?sym])"
    by (simp add: rpn_token_def operators_symbol)
  from lr have "guarded (top_level r) (stack @ [?sym])"
    by (simp add: guarded_iff operators_symbol)
  from Binary.IH(2) [OF sr fr this] obtain xr pr where
    r: "rpn_loop ops (tokens_of r) (out @ postfix l) (stack @ [?sym])
          = Inr ((out @ postfix l) @ xr, (stack @ [?sym]) @ pr)"
    and pr: "xr @ rev pr = postfix r" "pending (top_level r) pr"
    by blast
  from l op r have "rpn_loop ops (tokens_of (Binary l operator r)) out stack
      = Inr (out @ (postfix l @ xr), stack @ (?sym # pr))"
    by (simp add: rpn_loop_append)
  moreover from pr(1) have "(postfix l @ xr) @ rev (?sym # pr) = postfix (Binary l operator r)"
    by simp
  moreover from pr(2) lr have "pending (top_level (Binary l operator r)) (?sym # pr)"
    by (fastforce simp: pending_iff operators_symbol)
  ultimately show ?case
    by blast
next
  case (Parenthesised e)
  from Parenthesised.prems have s: "standard_reading e" and f: "float_reads ops e"
    and np: "\<not> check_is_number ops ''(''" "\<not> check_is_number ops '')''"
    by (simp_all add: float_reads_def check_is_number_def)
  from np(1) have left: "rpn_token ops ''('' out stack = Inr (out, stack @ [''(''])"
    by (simp add: rpn_token_def operators_paren)
  have "guarded (top_level e) (stack @ [''(''])"
    by (simp add: guarded_iff operators_paren)
  from Parenthesised.IH [OF s f this] obtain xs ps where
    e: "rpn_loop ops (tokens_of e) out (stack @ [''(''])
          = Inr (out @ xs, (stack @ [''('']) @ ps)"
    and ps: "xs @ rev ps = postfix e" "pending (top_level e) ps"
    by blast
  have right: "rpn_token ops '')'' (out @ xs) (stack @ [''(''] @ ps)
      = Inr ((out @ xs) @ rev ps, stack)"
    using np(2) pending_no_paren [OF ps(2)] by (rule right_paren_matched)
  from left e right ps(1)
  have "rpn_loop ops (tokens_of (Parenthesised e)) out stack = Inr (out @ postfix e, stack @ [])"
    by (simp add: rpn_loop_append)
  then show ?case
    by (auto simp: pending_iff)
qed

subsection \<open>The tokenizer on the text of a standard reading\<close>

lemma tokenize_loop_end:
  "tokenize_loop expression (length expression) tokens current_number = Inr (tokens, current_number)"
  by (simp add: tokenize_loop.simps)

lemma tokenize_loop_at:
  "tokenize_char (pre @ c # post) (length pre) tokens current_number = Inr (tokens1, current1) \<Longrightarrow>
     tokenize_loop (pre @ c # post) (length pre) tokens current_number
       = tokenize_loop (pre @ c # post) (length pre + 1) tokens1 current1"
  by (rule tokenize_loop_step) simp_all

lemma tokenize_char_digit:
  "isdigit c \<or> c = CHR ''.'' \<Longrightarrow>
     tokenize_char (pre @ c # post) (length pre) tokens current_number
       = Inr (tokens, current_number @ [c])"
  by (simp add: tokenize_char_def)

lemma tokenize_loop_digits:
  "list_all (\<lambda>d. isdigit d \<or> d = CHR ''.'') s \<Longrightarrow>
     tokenize_loop (pre @ s @ post) (length pre) tokens current_number
       = tokenize_loop (pre @ s @ post) (length pre + length s) tokens (current_number @ s)"
proof (induction s arbitrary: pre current_number)
  case Nil
  then show ?case by simp
next
  case (Cons c s)
  from Cons.prems have c: "isdigit c \<or> c = CHR ''.''"
    and s: "list_all (\<lambda>d. isdigit d \<or> d = CHR ''.'') s"
    by simp_all
  have "tokenize_loop (pre @ c # s @ post) (length pre) tokens current_number
      = tokenize_loop (pre @ c # s @ post) (length pre + 1) tokens (current_number @ [c])"
    by (rule tokenize_loop_at) (rule tokenize_char_digit [OF c])
  also have "\<dots> = tokenize_loop ((pre @ [c]) @ s @ post) (length (pre @ [c])) tokens
      (current_number @ [c])"
    by simp
  also have "\<dots> = tokenize_loop ((pre @ [c]) @ s @ post) (length (pre @ [c]) + length s) tokens
      ((current_number @ [c]) @ s)"
    by (rule Cons.IH [OF s])
  finally show ?case
    by simp
qed

text \<open>A character that is emitted as a token of its own.\<close>

lemma tokenize_char_symbol:
  "c \<in> set ''+*/()'' \<Longrightarrow>
     tokenize_char (pre @ c # post) (length pre) tokens current_number
       = Inr (fst (flush_number tokens current_number) @ [[c]], [])"
  by (auto simp: tokenize_char_def flush_number_def isdigit_def operators_def)

lemma digit_not_lookbehind:
  "isdigit c \<or> c = CHR ''.'' \<Longrightarrow> c \<notin> set ''(-+*/^)''"
  by (auto simp: isdigit_def)

lemma tokenize_char_minus_operator:
  "pre \<noteq> [] \<Longrightarrow> isdigit (last pre) \<or> last pre = CHR ''.'' \<Longrightarrow>
     tokenize_char (pre @ CHR ''-'' # post) (length pre) tokens current_number
       = Inr (fst (flush_number tokens current_number) @ [''-''], [])"
proof -
  assume p: "pre \<noteq> []" and d: "isdigit (last pre) \<or> last pre = CHR ''.''"
  from p have "(pre @ CHR ''-'' # post) ! (length pre - 1) = last pre"
    by (simp add: nth_append last_conv_nth)
  moreover from d have "last pre \<notin> set ''(-+*/^)''"
    by (rule digit_not_lookbehind)
  ultimately show ?thesis
    using p by (simp add: tokenize_char_def flush_number_def isdigit_def operators_def)
qed

lemma tokenize_char_minus_sign:
  "pre = [] \<or> last pre \<in> set ''(+-*/'' \<Longrightarrow>
     tokenize_char (pre @ CHR ''-'' # post) (length pre) tokens []
       = Inr (tokens, ''-'')"
proof -
  assume a: "pre = [] \<or> last pre \<in> set ''(+-*/''"
  have "pre \<noteq> [] \<Longrightarrow> (pre @ CHR ''-'' # post) ! (length pre - 1) = last pre"
    by (simp add: nth_append last_conv_nth)
  with a show ?thesis
    by (cases "pre = []") (auto simp: tokenize_char_def flush_number_def isdigit_def)
qed

lemma written_last:
  "standard_reading e \<Longrightarrow>
     written e \<noteq> [] \<and>
     (\<not> ends_with_paren e \<longrightarrow> isdigit (last (written e)) \<or> last (written e) = CHR ''.'')"
proof (induction e)
  case (Literal s)
  then show ?case
    by (cases s) (auto simp: literal_text_def list_all_iff split: if_splits)
next
  case (Binary l operator r)
  then show ?case by simp
next
  case (Parenthesised e)
  then show ?case by simp
qed

lemma tokenize_loop_literal:
  assumes lit: "literal_text s" and start: "pre = [] \<or> last pre \<in> set ''(+-*/''"
  shows "tokenize_loop (pre @ s @ post) (length pre) tokens []
           = tokenize_loop (pre @ s @ post) (length pre + length s) tokens s"
proof (cases s)
  case Nil
  with lit show ?thesis by (simp add: literal_text_def)
next
  case (Cons c t)
  show ?thesis
  proof (cases "c = CHR ''-''")
    case True
    with lit Cons have t: "list_all (\<lambda>d. isdigit d \<or> d = CHR ''.'') t"
      by (simp add: literal_text_def)
    have "tokenize_loop (pre @ CHR ''-'' # t @ post) (length pre) tokens []
        = tokenize_loop (pre @ CHR ''-'' # t @ post) (length pre + 1) tokens ''-''"
      by (rule tokenize_loop_at) (rule tokenize_char_minus_sign [OF start])
    also have "\<dots> = tokenize_loop ((pre @ ''-'') @ t @ post) (length (pre @ ''-'')) tokens ''-''"
      by simp
    also have "\<dots> = tokenize_loop ((pre @ ''-'') @ t @ post) (length (pre @ ''-'') + length t)
        tokens (''-'' @ t)"
      by (rule tokenize_loop_digits [OF t])
    finally show ?thesis
      using Cons True by simp
  next
    case False
    with lit Cons have "list_all (\<lambda>d. isdigit d \<or> d = CHR ''.'') s"
      by (simp add: literal_text_def)
    from tokenize_loop_digits [OF this, of pre post tokens "[]"] show ?thesis
      by simp
  qed
qed

lemma symbol_cases:
  "symbol operator = CHR ''-'' \<and> operator = Minus \<or>
   symbol operator \<in> set ''+*/'' \<and> operator \<noteq> Minus"
  by (cases operator) simp_all

lemma tokenize_loop_written:
  "standard_reading e \<Longrightarrow> \<not> minus_after_paren e \<Longrightarrow> pre = [] \<or> last pre \<in> set ''(+-*/'' \<Longrightarrow>
     \<exists>tokens1 current1.
       tokenize_loop (pre @ written e @ post) (length pre) tokens []
         = tokenize_loop (pre @ written e @ post) (length pre + length (written e)) tokens1 current1 \<and>
       fst (flush_number tokens1 current1) = tokens @ tokens_of e"
proof (induction e arbitrary: pre post tokens)
  case (Literal s)
  then have lit: "literal_text s"
    by simp
  then have "s \<noteq> []"
    by (auto simp: literal_text_def)
  then have "fst (flush_number tokens s) = tokens @ tokens_of (Literal s)"
    by (simp add: flush_number_def)
  with tokenize_loop_literal [OF lit Literal.prems(3), of post tokens] show ?case
    by auto
next
  case (Binary l operator r)
  let ?c = "symbol operator"
  let ?wl = "written l" and ?wr = "written r"
  let ?E = "pre @ written (Binary l operator r) @ post"
  from Binary.prems have sl: "standard_reading l" and sr: "standard_reading r"
    and ml: "\<not> minus_after_paren l" and mr: "\<not> minus_after_paren r"
    and me: "operator = Minus \<longrightarrow> \<not> ends_with_paren l"
    by auto
  have El: "?E = pre @ ?wl @ (?c # ?wr @ post)"
    by simp
  from Binary.IH(1) [OF sl ml Binary.prems(3), of "?c # ?wr @ post" tokens]
  obtain t1 c1 where
    l: "tokenize_loop ?E (length pre) tokens [] = tokenize_loop ?E (length pre + length ?wl) t1 c1"
    and f1: "fst (flush_number t1 c1) = tokens @ tokens_of l"
    unfolding El by blast
  have Ec: "?E = (pre @ ?wl) @ ?c # (?wr @ post)"
    by simp
  from written_last [OF sl] have wl: "?wl \<noteq> []"
    and dl: "\<not> ends_with_paren l \<longrightarrow> isdigit (last ?wl) \<or> last ?wl = CHR ''.''"
    by simp_all
  have "tokenize_char ?E (length (pre @ ?wl)) t1 c1
      = Inr (fst (flush_number t1 c1) @ [[?c]], [])"
  proof (cases "operator = Minus")
    case True
    with me dl wl have "pre @ ?wl \<noteq> []"
      and "isdigit (last (pre @ ?wl)) \<or> last (pre @ ?wl) = CHR ''.''"
      by simp_all
    from tokenize_char_minus_operator [OF this, of "?wr @ post" t1 c1] True show ?thesis
      unfolding Ec by simp
  next
    case False
    with symbol_cases [of operator] have "?c \<in> set ''+*/()''"
      by auto
    from tokenize_char_symbol [OF this, of "pre @ ?wl" "?wr @ post" t1 c1] show ?thesis
      unfolding Ec .
  qed
  then have "tokenize_char ((pre @ ?wl) @ ?c # (?wr @ post)) (length (pre @ ?wl)) t1 c1
      = Inr (tokens @ tokens_of l @ [[?c]], [])"
    using f1 Ec by simp
  from tokenize_loop_at [OF this]
  have c: "tokenize_loop ?E (length pre + length ?wl) t1 c1
      = tokenize_loop ?E (length pre + length ?wl + 1) (tokens @ tokens_of l @ [[?c]]) []"
    using Ec by simp
  have Er: "?E = (pre @ ?wl @ [?c]) @ ?wr @ post"
    by simp
  have "pre @ ?wl @ [?c] = [] \<or> last (pre @ ?wl @ [?c]) \<in> set ''(+-*/''"
    by (cases operator) simp_all
  from Binary.IH(2) [OF sr mr this, of post "tokens @ tokens_of l @ [[?c]]"]
  obtain t2 c2 where
    r: "tokenize_loop ?E (length (pre @ ?wl @ [?c])) (tokens @ tokens_of l @ [[?c]]) []
        = tokenize_loop ?E (length (pre @ ?wl @ [?c]) + length ?wr) t2 c2"
    and f2: "fst (flush_number t2 c2) = (tokens @ tokens_of l @ [[?c]]) @ tokens_of r"
    unfolding Er by blast
  from l c r have "tokenize_loop ?E (length pre) tokens []
      = tokenize_loop ?E (length pre + length (written (Binary l operator r))) t2 c2"
    by (simp add: add.assoc)
  with f2 show ?case
    by auto
next
  case (Parenthesised e)
  let ?w = "written e"
  let ?E = "pre @ written (Parenthesised e) @ post"
  from Parenthesised.prems have s: "standard_reading e" and m: "\<not> minus_after_paren e"
    by simp_all
  have E1: "?E = pre @ CHR ''('' # (?w @ '')'' @ post)"
    by simp
  have "tokenize_char (pre @ CHR ''('' # (?w @ '')'' @ post)) (length pre) tokens []
      = Inr (fst (flush_number tokens []) @ [''(''], [])"
    by (rule tokenize_char_symbol) simp
  then have "tokenize_char (pre @ CHR ''('' # (?w @ '')'' @ post)) (length pre) tokens []
      = Inr (tokens @ [''(''], [])"
    by (simp add: flush_number_def)
  from tokenize_loop_at [OF this]
  have left: "tokenize_loop ?E (length pre) tokens []
      = tokenize_loop ?E (length pre + 1) (tokens @ [''('']) []"
    using E1 by simp
  have E2: "?E = (pre @ ''('') @ ?w @ ('')'' @ post)"
    by simp
  have "pre @ ''('' = [] \<or> last (pre @ ''('') \<in> set ''(+-*/''"
    by simp
  from Parenthesised.IH [OF s m this, of "'')'' @ post" "tokens @ [''('']"]
  obtain t1 c1 where
    e: "tokenize_loop ?E (length (pre @ ''('')) (tokens @ [''('']) []
        = tokenize_loop ?E (length (pre @ ''('') + length ?w) t1 c1"
    and f1: "fst (flush_number t1 c1) = (tokens @ [''('']) @ tokens_of e"
    unfolding E2 by blast
  have E3: "?E = (pre @ ''('' @ ?w) @ CHR '')'' # post"
    by simp
  have "tokenize_char ((pre @ ''('' @ ?w) @ CHR '')'' # post) (length (pre @ ''('' @ ?w)) t1 c1
      = Inr (fst (flush_number t1 c1) @ ['')''], [])"
    by (rule tokenize_char_symbol) simp
  from tokenize_loop_at [OF this]
  have right: "tokenize_loop ?E (length pre + 1 + length ?w) t1 c1
      = tokenize_loop ?E (length pre + 1 + length ?w + 1) (fst (flush_number t1 c1) @ ['')'']) []"
    using E3 by (simp add: add.assoc)
  from left e right have "tokenize_loop ?E (length pre) tokens []
      = tokenize_loop ?E (length pre + length (written (Parenthesised e)))
          (fst (flush_number t1 c1) @ ['')'']) []"
    by (simp add: add.assoc)
  moreover have "fst (flush_number (fst (flush_number t1 c1) @ ['')'']) [])
      = tokens @ tokens_of (Parenthesised e)"
    using f1 by (simp add: flush_number_def)
  ultimately show ?case
    by blast
qed

lemma tokenize_string_written:
  assumes "standard_reading e" "\<not> minus_after_paren e"
    and "filter (\<lambda>c. c \<noteq> CHR '' '') expression = written e"
  shows "tokenize_string expression = Inr (tokens_of e)"
proof -
  from tokenize_loop_written [OF assms(1) assms(2), of "[]" "[]" "[]"]
  obtain t1 c1 where
    "tokenize_loop (written e) 0 [] [] = tokenize_loop (written e) (length (written e)) t1 c1"
    and f: "fst (flush_number t1 c1) = tokens_of e"
    by auto
  then have "tokenize_loop (written e) 0 [] [] = Inr (t1, c1)"
    by (simp add: tokenize_loop_end)
  with f show ?thesis
    by (simp add: tokenize_string_def assms(3))
qed

subsection \<open>The three stages together\<close>

lemma tokens_to_rpn_postfix:
  assumes "standard_reading e" "float_reads ops e"
  shows "tokens_to_rpn ops (tokens_of e) = Inr (postfix e)"
proof -
  have "guarded (top_level e) []"
    by (simp add: guarded_iff)
  from rpn_loop_tokens_of [OF assms this, of "[]"] obtain xs ps where
    "rpn_loop ops (tokens_of e) [] [] = Inr (xs, ps)" and "xs @ rev ps = postfix e"
    by auto
  then show ?thesis
    by (simp add: tokens_to_rpn_def pop_remaining_rev)
qed

text \<open>
  For an expression in its standard reading with no binary \<^verbatim>\<open>-\<close> directly after a
  \<^verbatim>\<open>)\<close>, written with or without spaces, \<^verbatim>\<open>evaluate_expression\<close> returns the value of
  standard infix arithmetic, or fails with the division by zero that standard
  arithmetic meets first; this for every float arithmetic that reads the literals.
\<close>

theorem standard_semantics_elsewhere:
  assumes reading: "standard_reading e"
    and minus: "\<not> minus_after_paren e"
    and reads: "float_reads ops e"
    and spaces: "filter (\<lambda>c. c \<noteq> CHR '' '') expression = written e"
  shows "evaluate_expression ops expression = standard_value ops e"
proof -
  have "tokenize_string expression = Inr (tokens_of e)"
    using reading minus spaces by (rule tokenize_string_written)
  then have "infix_to_rpn ops expression = Inr (postfix e)"
    by (simp add: infix_to_rpn_def tokens_to_rpn_postfix [OF reading reads])
  moreover have "evaluate_rpn ops (postfix e) = standard_value ops e"
    by (simp add: evaluate_rpn_def evaluate_loop_postfix [OF reads] split: sum.splits)
  ultimately show ?thesis
    by (simp add: evaluate_expression_def)
qed

theorem standard_semantics_elsewhere_example:
  "evaluate_expression real_ops ''10 - 2*(3+4)/7 - -1.5''
     = standard_value real_ops
         (Binary
            (Binary (Literal ''10'') Minus
               (Binary
                  (Binary (Literal ''2'') Times
                     (Parenthesised (Binary (Literal ''3'') Plus (Literal ''4''))))
                  Divide (Literal ''7'')))
            Minus (Literal ''-1.5'')) \<and>
   evaluate_expression real_ops ''10 - 2*(3+4)/7 - -1.5'' = Inr (19 / 2)"
proof -
  let ?e = "Binary
            (Binary (Literal ''10'') Minus
               (Binary
                  (Binary (Literal ''2'') Times
                     (Parenthesised (Binary (Literal ''3'') Plus (Literal ''4''))))
                  Divide (Literal ''7'')))
            Minus (Literal ''-1.5'')"
  have r: "standard_reading ?e"
    by (simp add: literal_text_def isdigit_def)
  have m: "\<not> minus_after_paren ?e"
    by simp
  have f: "float_reads real_ops ?e"
    by (simp add: float_reads_def run_real)
  have t: "filter (\<lambda>c. c \<noteq> CHR '' '') ''10 - 2*(3+4)/7 - -1.5'' = written ?e"
    by simp
  have v: "standard_value real_ops ?e = Inr (19 / 2)"
    by (simp add: run_real)
  from standard_semantics_elsewhere [OF r m f t] v show ?thesis
    by simp
qed

text \<open>
  C1. \<^verbatim>\<open>(2+3)-4\<close> is a valid infix expression over \<^verbatim>\<open>+ - * /\<close> with matched
  parentheses, and its value in standard infix arithmetic is \<open>1\<close>. The tokenizer takes
  the \<^verbatim>\<open>-\<close> after \<^verbatim>\<open>)\<close> for the sign of a literal, no operator is left between the
  two operands, and \<^verbatim>\<open>evaluate_expression\<close> returns \<open>5\<close>. The two examples of the claim
  hold.
\<close>

theorem standard_semantics_fails:
  "written (Binary (Parenthesised (Binary (Literal ''2'') Plus (Literal ''3''))) Minus
      (Literal ''4'')) = ''(2+3)-4'' \<and>
   standard_value real_ops
     (Binary (Parenthesised (Binary (Literal ''2'') Plus (Literal ''3''))) Minus (Literal ''4''))
     = Inr 1 \<and>
   tokenize_string ''(2+3)-4'' = Inr [''('', ''2'', ''+'', ''3'', '')'', ''-4''] \<and>
   evaluate_expression real_ops ''(2+3)-4'' = Inr 5 \<and>
   evaluate_expression real_ops ''2+3*4'' = Inr 14 \<and>
   evaluate_expression real_ops ''(2+3)*4'' = Inr 20"
  by (simp add: run)

end
